theory Spec2Isabelle
  imports Main "HOL-Library.Sublist"
begin

section \<open>The sources embedded\<close>

text \<open>
  The repository holds the storage service in more than one version. The functions
  below follow \<open>src/unnamed/part_004\<close>. For \<open>parseMinioNodes\<close>, \<open>getMinioClients\<close>,
  \<open>getMinioNodeConfigs\<close>, \<open>getFileStreamFromReplica\<close> and \<open>deleteFileFromAllReplicas\<close>
  the text of \<open>src/backend/services/minioService.js\<close> is the same. The two differ in
  \<open>getStorageLocations\<close>, of which both versions are embedded below, and in
  \<open>uploadFileFromBuffer\<close>, of which only the version with the fallback loop
  (\<open>src/unnamed/part_004\<close>) is embedded. The healing service is
  \<open>src/backend/services/healingService.js\<close>.
\<close>

section \<open>JavaScript values used by the storage services\<close>

text \<open>
  An error object as the services read it: the optional \<open>code\<close> property (set by the
  object-store client on S3 errors) and the \<open>message\<close> property. \<open>new Error(m)\<close> has
  no code and the message \<open>m\<close>.
\<close>

record js_error =
  code :: "string option"
  message :: "string option"

definition new_Error :: "string \<Rightarrow> js_error" where
  "new_Error m = \<lparr>code = None, message = Some m\<rparr>"

text \<open>\<open>String.prototype.includes\<close>: the needle occurs somewhere in the string.\<close>

fun str_includes :: "string \<Rightarrow> string \<Rightarrow> bool" where
  "str_includes [] needle = (needle = [])"
| "str_includes (c # cs) needle = (prefix needle (c # cs) \<or> str_includes cs needle)"

text \<open>
  White space as \<open>trim\<close> and \<open>parseInt\<close> skip it. Configuration values are taken to be
  ASCII: tab, line feed, vertical tab, form feed, carriage return and space.
\<close>

definition is_space :: "char \<Rightarrow> bool" where
  "is_space c = (c \<in> set [CHR 0x09, CHR 0x0A, CHR 0x0B, CHR 0x0C, CHR 0x0D, CHR '' ''])"

definition trim_start :: "string \<Rightarrow> string" where
  "trim_start s = dropWhile is_space s"

definition trim :: "string \<Rightarrow> string" where
  "trim s = rev (dropWhile is_space (rev (dropWhile is_space s)))"

text \<open>\<open>s.split(c)\<close> for a one-character separator; \<open>''''.split(c)\<close> is \<open>['''']\<close>.\<close>

fun split_acc :: "char \<Rightarrow> string \<Rightarrow> string \<Rightarrow> string list" where
  "split_acc sep acc [] = [rev acc]"
| "split_acc sep acc (c # cs) =
     (if c = sep then rev acc # split_acc sep [] cs else split_acc sep (c # acc) cs)"

definition split :: "char \<Rightarrow> string \<Rightarrow> string list" where
  "split sep s = split_acc sep [] s"

text \<open>
  \<open>Number.parseInt(s, 10)\<close>. The argument may be \<open>undefined\<close> (\<open>None\<close>), which is
  converted to the string \<open>undefined\<close>. Leading white space is skipped, one sign is
  read, then the longest run of decimal digits; no digit at all gives \<open>NaN\<close> (\<open>None\<close>).
  The value is kept as a mathematical integer.
\<close>

definition is_digit :: "char \<Rightarrow> bool" where
  "is_digit c = (c \<in> set ''0123456789'')"

definition digit_val :: "char \<Rightarrow> int" where
  "digit_val c = int (of_char c) - 48"

definition digits_val :: "string \<Rightarrow> int" where
  "digits_val ds = foldl (\<lambda>a c. 10 * a + digit_val c) 0 ds"

definition parseInt10 :: "string option \<Rightarrow> int option" where
  "parseInt10 arg =
     (let inputString = (case arg of None \<Rightarrow> ''undefined'' | Some s \<Rightarrow> s);
          S = trim_start inputString;
          sign = (if S \<noteq> [] \<and> hd S = CHR ''-'' then - 1 else (1::int));
          S' = (if S \<noteq> [] \<and> (hd S = CHR ''+'' \<or> hd S = CHR ''-'') then tl S else S);
          Z = takeWhile is_digit S'
      in if Z = [] then None else Some (sign * digits_val Z))"

section \<open>Node registry: \<open>parseMinioNodes\<close>\<close>

record node =
  endpoint :: string
  port :: int

text \<open>The two environment variables the registry reads; \<open>None\<close> is an unset variable.\<close>

record env =
  MINIO_NODES :: "string option"
  MINIO_ENDPOINT :: "string option"

text \<open>\<open>v || d\<close> on a string that may be undefined: unset and empty both give \<open>d\<close>.\<close>

definition or_default :: "string option \<Rightarrow> string \<Rightarrow> string" where
  "or_default v d = (case v of None \<Rightarrow> d | Some s \<Rightarrow> if s = [] then d else s)"

text \<open>
  The body of the \<open>.map(entry => ...)\<close> callback: \<open>[host, portStr] = entry.split(':')\<close>
  takes the first two pieces (\<open>portStr\<close> is undefined when there is no colon;
  \<open>split\<close> never returns an empty array, so \<open>host\<close> is a string). The entry is
  refused when \<open>host\<close> is empty or the port is \<open>NaN\<close>.
\<close>

definition invalid_entry :: "string \<Rightarrow> js_error" where
  "invalid_entry entry =
     new_Error (''Invalid MINIO_NODES entry: '' @ [CHR 0x27] @ entry @ [CHR 0x27]
                @ ''. Expected host:port'')"

definition parse_entry :: "string \<Rightarrow> js_error + node" where
  "parse_entry entry =
     (let pieces = split CHR '':'' entry;
          host = hd pieces;
          portStr = (case tl pieces of [] \<Rightarrow> None | p # _ \<Rightarrow> Some p)
      in case parseInt10 portStr of
           None \<Rightarrow> Inl (invalid_entry entry)
         | Some p \<Rightarrow> if host = [] then Inl (invalid_entry entry)
                     else Inr \<lparr>endpoint = host, port = p\<rparr>)"

text \<open>\<open>Array.prototype.map\<close> with a callback that may throw: the first throw ends it.\<close>

fun map_entries :: "string list \<Rightarrow> js_error + node list" where
  "map_entries [] = Inr []"
| "map_entries (e # es) =
     (case parse_entry e of
        Inl err \<Rightarrow> Inl err
      | Inr n \<Rightarrow> (case map_entries es of Inl err \<Rightarrow> Inl err | Inr ns \<Rightarrow> Inr (n # ns)))"

definition parseMinioNodes :: "env \<Rightarrow> js_error + node list" where
  "parseMinioNodes e =
     (let raw = trim (or_default (MINIO_NODES e) '''')
      in if raw \<noteq> []
         then map_entries (filter (\<lambda>s. s \<noteq> []) (map trim (split CHR '','' raw)))
         else (let endpoint = or_default (MINIO_ENDPOINT e) ''localhost''
               in Inr [\<lparr>endpoint = endpoint, port = 9001\<rparr>,
                       \<lparr>endpoint = endpoint, port = 9003\<rparr>,
                       \<lparr>endpoint = endpoint, port = 9005\<rparr>]))"

section \<open>Replica client set and the object stores\<close>

text \<open>
  A client handle is made from a node descriptor by \<open>new Minio.Client({endPoint, port, ...})\<close>;
  the credentials and the TLS flag are the same for every client and are left out.
\<close>

datatype client = Client (endPoint: string) (client_port: int)

definition new_Client :: "node \<Rightarrow> client" where
  "new_Client n = Client (endpoint n) (port n)"

definition getMinioClients :: "env \<Rightarrow> js_error + client list" where
  "getMinioClients e =
     (case parseMinioNodes e of Inl err \<Rightarrow> Inl err | Inr nodes \<Rightarrow> Inr (map new_Client nodes))"

definition getMinioNodeConfigs :: "env \<Rightarrow> js_error + node list" where
  "getMinioNodeConfigs e = parseMinioNodes e"

text \<open>
  A readable stream: the chunks it delivers and, when reading it fails, the error it ends with.
\<close>

datatype stream = Stream (chunks: "string list") (read_error: "js_error option")

text \<open>
  A stat request: how it ends, and after how many milliseconds (measured from the moment
  the timer it races against is set).
\<close>

record stat_request =
  outcome :: "js_error + unit"
  delay_ms :: nat

text \<open>
  The object stores as the services see them through a client, for the one configured
  bucket: how each request on an object name ends. Every request ends, by resolving
  (\<open>Inr\<close>) or rejecting (\<open>Inl\<close>). \<open>putObject\<close> takes the object name, the bytes and
  the \<open>Content-Type\<close>. Two clients made from the same endpoint and port reach the same
  node.
\<close>

record world =
  putObject :: "client \<Rightarrow> string \<Rightarrow> string \<Rightarrow> string \<Rightarrow> js_error + unit"
  getObject :: "client \<Rightarrow> string \<Rightarrow> js_error + stream"
  statObject :: "client \<Rightarrow> string \<Rightarrow> stat_request"
  removeObject :: "client \<Rightarrow> string \<Rightarrow> js_error + unit"

text \<open>
  What a service call does besides returning: the requests it sends, in order, and the
  console lines it prints (each with the arguments of the call).
\<close>

datatype js_arg = Str string | Err js_error | Undefined

datatype effect =
    PutObject client string
  | GetObject client string
  | StatObject client string
  | RemoveObject client string
  | ConsoleLog "js_arg list"
  | ConsoleError "js_arg list"

text \<open>\<open>xs[i]\<close> is undefined out of range; \<open>xs[i]?.f\<close> is then undefined too.\<close>

definition at_index :: "'a list \<Rightarrow> nat \<Rightarrow> 'a option" where
  "at_index xs i = (if i < length xs then Some (xs ! i) else None)"

text \<open>A number or string inside a template literal; undefined prints as \<open>undefined\<close>.\<close>

fun show_nat :: "nat \<Rightarrow> string" where
  "show_nat n =
     (if n < 10 then [''0123456789'' ! n] else show_nat (n div 10) @ [''0123456789'' ! (n mod 10)])"

definition show_int :: "int \<Rightarrow> string" where
  "show_int i = (if i < 0 then CHR ''-'' # show_nat (nat (- i)) else show_nat (nat i))"

definition show_opt :: "('a \<Rightarrow> string) \<Rightarrow> 'a option \<Rightarrow> string" where
  "show_opt f v = (case v of None \<Rightarrow> ''undefined'' | Some x \<Rightarrow> f x)"

section \<open>Failover read path: \<open>getFileStreamFromReplica\<close>\<close>

record read_result =
  rr_stream :: stream
  rr_nodeIndex :: nat
  rr_nodePort :: "int option"
  rr_nodeEndpoint :: "string option"

text \<open>
  The \<open>for\<close> loop from index \<open>i\<close> on, with the value of \<open>lastError\<close> (\<open>null\<close> is
  \<open>None\<close>); after the loop, \<open>throw lastError || new Error(...)\<close>.
\<close>

function read_loop ::
  "world \<Rightarrow> client list \<Rightarrow> node list \<Rightarrow> string \<Rightarrow> nat \<Rightarrow> js_error option
   \<Rightarrow> (js_error + read_result) \<times> effect list" where
  "read_loop w clients nodes objectName i lastError =
     (if i < length clients
      then (case getObject w (clients ! i) objectName of
              Inr s \<Rightarrow>
                (Inr \<lparr>rr_stream = s, rr_nodeIndex = i,
                      rr_nodePort = map_option port (at_index nodes i),
                      rr_nodeEndpoint = map_option endpoint (at_index nodes i)\<rparr>,
                 [GetObject (clients ! i) objectName])
            | Inl error \<Rightarrow>
                (let (r, effs) = read_loop w clients nodes objectName (Suc i) (Some error)
                 in (r, GetObject (clients ! i) objectName # effs)))
      else (Inl (case lastError of
                   Some error \<Rightarrow> error
                 | None \<Rightarrow> new_Error ''File not found in any replica''), []))"
  by pat_completeness auto
termination
  by (relation "measure (\<lambda>(w, clients, nodes, objectName, i, lastError). length clients - i)") auto

definition getFileStreamFromReplica ::
  "env \<Rightarrow> world \<Rightarrow> string \<Rightarrow> (js_error + read_result) \<times> effect list" where
  "getFileStreamFromReplica e w objectName =
     (case getMinioClients e of
        Inl err \<Rightarrow> (Inl err, [])
      | Inr clients \<Rightarrow>
          (case getMinioNodeConfigs e of
             Inl err \<Rightarrow> (Inl err, [])
           | Inr nodes \<Rightarrow> read_loop w clients nodes objectName 0 None))"

section \<open>Best-effort multi-node delete: \<open>deleteFileFromAllReplicas\<close>\<close>

record delete_result =
  dr_nodeIndex :: nat
  dr_nodeEndpoint :: "string option"
  dr_nodePort :: "int option"
  dr_success :: bool
  dr_error :: "string option"

text \<open>The \<open>for\<close> loop from index \<open>i\<close> on; \<open>results.push\<close> appends to \<open>results\<close>.\<close>

function delete_loop ::
  "world \<Rightarrow> client list \<Rightarrow> node list \<Rightarrow> string \<Rightarrow> nat \<Rightarrow> delete_result list
   \<Rightarrow> delete_result list \<times> effect list" where
  "delete_loop w clients nodes objectName i results =
     (if i < length clients
      then (case removeObject w (clients ! i) objectName of
              Inr _ \<Rightarrow>
                (let (rs, effs) =
                       delete_loop w clients nodes objectName (Suc i)
                         (results @ [\<lparr>dr_nodeIndex = i,
                                      dr_nodeEndpoint = map_option endpoint (at_index nodes i),
                                      dr_nodePort = map_option port (at_index nodes i),
                                      dr_success = True, dr_error = None\<rparr>])
                 in (rs, RemoveObject (clients ! i) objectName # effs))
            | Inl error \<Rightarrow>
                (let (rs, effs) =
                       delete_loop w clients nodes objectName (Suc i)
                         (results @ [\<lparr>dr_nodeIndex = i,
                                      dr_nodeEndpoint = map_option endpoint (at_index nodes i),
                                      dr_nodePort = map_option port (at_index nodes i),
                                      dr_success = False, dr_error = message error\<rparr>])
                 in (rs, RemoveObject (clients ! i) objectName # effs)))
      else (results, []))"
  by pat_completeness auto
termination
  by (relation "measure (\<lambda>(w, clients, nodes, objectName, i, results). length clients - i)") auto

definition deleteFileFromAllReplicas ::
  "env \<Rightarrow> world \<Rightarrow> string \<Rightarrow> (js_error + delete_result list) \<times> effect list" where
  "deleteFileFromAllReplicas e w objectName =
     (case getMinioClients e of
        Inl err \<Rightarrow> (Inl err, [])
      | Inr clients \<Rightarrow>
          (case getMinioNodeConfigs e of
             Inl err \<Rightarrow> (Inl err, [])
           | Inr nodes \<Rightarrow>
               (let (rs, effs) = delete_loop w clients nodes objectName 0 [] in (Inr rs, effs))))"

section \<open>Storage location discovery: \<open>getStorageLocations\<close>\<close>

record location =
  loc_nodeIndex :: nat
  loc_endpoint :: "string option"
  loc_port :: "int option"

text \<open>
  The version of \<open>getStorageLocations\<close> in \<open>src/unnamed/part_004\<close> (lines 364-394) comes
  first. It awaits \<open>Promise.race([statCheck, timeout])\<close> with the 3000 ms timer: the stat request decides
  when it ends before the timer fires; otherwise the timer rejects first (a request ending
  at the very instant the timer fires is taken to lose).
\<close>

definition race_stat_timeout :: "stat_request \<Rightarrow> js_error + unit" where
  "race_stat_timeout r =
     (if delay_ms r < 3000 then outcome r else Inl (new_Error ''Node check timeout''))"

function locate_loop ::
  "world \<Rightarrow> client list \<Rightarrow> node list \<Rightarrow> string \<Rightarrow> nat \<Rightarrow> location list
   \<Rightarrow> location list \<times> effect list" where
  "locate_loop w clients nodes objectName i locations =
     (if i < length clients
      then (case race_stat_timeout (statObject w (clients ! i) objectName) of
              Inr _ \<Rightarrow>
                (let (ls, effs) =
                       locate_loop w clients nodes objectName (Suc i)
                         (locations @ [\<lparr>loc_nodeIndex = i,
                                        loc_endpoint = map_option endpoint (at_index nodes i),
                                        loc_port = map_option port (at_index nodes i)\<rparr>])
                 in (ls, StatObject (clients ! i) objectName # effs))
            | Inl error \<Rightarrow>
                (let (ls, effs) = locate_loop w clients nodes objectName (Suc i) locations
                 in (ls, StatObject (clients ! i) objectName # effs)))
      else (locations, []))"
  by pat_completeness auto
termination
  by (relation "measure (\<lambda>(w, clients, nodes, objectName, i, locations). length clients - i)") auto

definition getStorageLocations ::
  "env \<Rightarrow> world \<Rightarrow> string \<Rightarrow> (js_error + location list) \<times> effect list" where
  "getStorageLocations e w objectName =
     (case getMinioClients e of
        Inl err \<Rightarrow> (Inl err, [])
      | Inr clients \<Rightarrow>
          (case getMinioNodeConfigs e of
             Inl err \<Rightarrow> (Inl err, [])
           | Inr nodes \<Rightarrow>
               (let (ls, effs) = locate_loop w clients nodes objectName 0 [] in (Inr ls, effs))))"

text \<open>
  The version of \<open>getStorageLocations\<close> in \<open>src/backend/services/minioService.js\<close>
  (lines 247-269): the same loop, but the stat request is awaited as it is, with no
  timer to race against, so only the way it ends counts and not the time it takes.
\<close>

function locate_loop_untimed ::
  "world \<Rightarrow> client list \<Rightarrow> node list \<Rightarrow> string \<Rightarrow> nat \<Rightarrow> location list
   \<Rightarrow> location list \<times> effect list" where
  "locate_loop_untimed w clients nodes objectName i locations =
     (if i < length clients
      then (case outcome (statObject w (clients ! i) objectName) of
              Inr _ \<Rightarrow>
                (let (ls, effs) =
                       locate_loop_untimed w clients nodes objectName (Suc i)
                         (locations @ [\<lparr>loc_nodeIndex = i,
                                        loc_endpoint = map_option endpoint (at_index nodes i),
                                        loc_port = map_option port (at_index nodes i)\<rparr>])
                 in (ls, StatObject (clients ! i) objectName # effs))
            | Inl error \<Rightarrow>
                (let (ls, effs) = locate_loop_untimed w clients nodes objectName (Suc i) locations
                 in (ls, StatObject (clients ! i) objectName # effs)))
      else (locations, []))"
  by pat_completeness auto
termination
  by (relation "measure (\<lambda>(w, clients, nodes, objectName, i, locations). length clients - i)") auto

definition getStorageLocations_untimed ::
  "env \<Rightarrow> world \<Rightarrow> string \<Rightarrow> (js_error + location list) \<times> effect list" where
  "getStorageLocations_untimed e w objectName =
     (case getMinioClients e of
        Inl err \<Rightarrow> (Inl err, [])
      | Inr clients \<Rightarrow>
          (case getMinioNodeConfigs e of
             Inl err \<Rightarrow> (Inl err, [])
           | Inr nodes \<Rightarrow>
               (let (ls, effs) = locate_loop_untimed w clients nodes objectName 0 []
                in (Inr ls, effs))))"

section \<open>Replicated write path: \<open>uploadFileFromBuffer\<close>\<close>

text \<open>
  \<open>getMinioClient\<close> reads the module variable \<open>minioClient\<close>, the primary client that
  \<open>initializeMinIO\<close> connected (\<open>null\<close> before that).
\<close>

definition getMinioClient :: "client option \<Rightarrow> js_error + client" where
  "getMinioClient minioClient =
     (case minioClient of
        None \<Rightarrow> Inl (new_Error ''MinIO client not initialized. Call initializeMinIO() first.'')
      | Some c \<Rightarrow> Inr c)"

text \<open>
  The test the \<open>catch\<close> block makes on \<open>primaryError.message\<close>; with an undefined message
  every \<open>message?.includes(...)\<close> is undefined and the error is rethrown.
\<close>

definition is_connection_error :: "js_error \<Rightarrow> bool" where
  "is_connection_error err =
     (case message err of
        None \<Rightarrow> False
      | Some m \<Rightarrow> str_includes m ''EHOSTUNREACH'' \<or> str_includes m ''ECONNREFUSED''
                 \<or> str_includes m ''ETIMEDOUT'')"

function upload_loop ::
  "world \<Rightarrow> client list \<Rightarrow> node list \<Rightarrow> string \<Rightarrow> string \<Rightarrow> string \<Rightarrow> nat \<Rightarrow> js_error
   \<Rightarrow> (js_error + unit) \<times> effect list" where
  "upload_loop w clients nodes objectName buffer contentType i lastError =
     (if i < length clients
      then (case putObject w (clients ! i) objectName buffer contentType of
              Inr _ \<Rightarrow>
                (Inr (),
                 [PutObject (clients ! i) objectName,
                  ConsoleLog [Str (''Upload succeeded via failover node: ''
                                   @ show_opt (\<lambda>s. s) (map_option endpoint (at_index nodes i))
                                   @ '':''
                                   @ show_opt show_int (map_option port (at_index nodes i)))]])
            | Inl error \<Rightarrow>
                (let (r, effs) =
                       upload_loop w clients nodes objectName buffer contentType (Suc i) error
                 in (r, PutObject (clients ! i) objectName # effs)))
      else (Inl (new_Error (''Upload failed on all MinIO nodes. Last error: ''
                            @ show_opt (\<lambda>s. s) (message lastError))), []))"
  by pat_completeness auto
termination
  by (relation "measure (\<lambda>(w, clients, nodes, objectName, buffer, contentType, i, lastError).
                           length clients - i)") auto

text \<open>
  The primary attempt (the \<open>try\<close> block), then the \<open>catch\<close> block. \<open>contentType\<close> may be
  undefined.
\<close>

definition uploadFileFromBuffer ::
  "env \<Rightarrow> world \<Rightarrow> client option \<Rightarrow> string \<Rightarrow> string \<Rightarrow> string option
   \<Rightarrow> (js_error + unit) \<times> effect list" where
  "uploadFileFromBuffer e w minioClient buffer objectName contentType =
     (let metaData = or_default contentType ''application/octet-stream'';
          (primary, effs0) =
            (case getMinioClient minioClient of
               Inl err \<Rightarrow> (Inl err, [])
             | Inr c \<Rightarrow> (putObject w c objectName buffer metaData, [PutObject c objectName]))
      in case primary of
           Inr _ \<Rightarrow> (Inr (), effs0)
         | Inl primaryError \<Rightarrow>
             if \<not> is_connection_error primaryError then (Inl primaryError, effs0)
             else (case getMinioClients e of
                     Inl err \<Rightarrow> (Inl err, effs0)
                   | Inr clients \<Rightarrow>
                       (case getMinioNodeConfigs e of
                          Inl err \<Rightarrow> (Inl err, effs0)
                        | Inr nodes \<Rightarrow>
                            (let (r, effs) =
                                   upload_loop w clients nodes objectName buffer metaData 0
                                     primaryError
                             in (r, effs0 @ effs)))))"

section \<open>Example configurations and stores\<close>

text \<open>The local default: no variable set, three ports on \<open>localhost\<close>.\<close>

definition default_env :: env where
  "default_env = \<lparr>MINIO_NODES = None, MINIO_ENDPOINT = None\<rparr>"

definition default_nodes :: "node list" where
  "default_nodes = [\<lparr>endpoint = ''localhost'', port = 9001\<rparr>,
                    \<lparr>endpoint = ''localhost'', port = 9003\<rparr>,
                    \<lparr>endpoint = ''localhost'', port = 9005\<rparr>]"

text \<open>
  A store set in which the node on port 9001 refuses connections, the node on port 9003
  answers a stat only after four seconds, and every other request succeeds.
\<close>

definition first_down :: world where
  "first_down =
     \<lparr>putObject = (\<lambda>c k b t. if client_port c = 9001
                               then Inl (new_Error ''connect ECONNREFUSED 127.0.0.1:9001'')
                               else Inr ()),
      getObject = (\<lambda>c k. if client_port c = 9001
                          then Inl (new_Error ''connect ECONNREFUSED 127.0.0.1:9001'')
                          else Inr (Stream [''abc''] None)),
      statObject = (\<lambda>c k. if client_port c = 9001
                           then \<lparr>outcome = Inl (new_Error ''connect ECONNREFUSED 127.0.0.1:9001''),
                                 delay_ms = 2\<rparr>
                           else \<lparr>outcome = Inr (),
                                 delay_ms = (if client_port c = 9003 then 4000 else 5)\<rparr>),
      removeObject = (\<lambda>c k. if client_port c = 9001
                             then Inl (new_Error ''connect ECONNREFUSED 127.0.0.1:9001'')
                             else Inr ())\<rparr>"

text \<open>A store set in which every node is down, each failing with its own message.\<close>

definition down_error :: "client \<Rightarrow> js_error" where
  "down_error c = new_Error (''connect ECONNREFUSED 127.0.0.1:'' @ show_int (client_port c))"

definition all_down :: world where
  "all_down =
     \<lparr>putObject = (\<lambda>c k b t. Inl (down_error c)),
      getObject = (\<lambda>c k. Inl (down_error c)),
      statObject = (\<lambda>c k. \<lparr>outcome = Inl (down_error c), delay_ms = 1\<rparr>),
      removeObject = (\<lambda>c k. Inl (down_error c))\<rparr>"

section \<open>What the registry accepts, entry by entry\<close>

text \<open>
  The entries of the explicit list as the registry sees them: the pieces of the trimmed
  \<open>MINIO_NODES\<close> between commas, each trimmed.
\<close>

definition explicit_entries :: "env \<Rightarrow> string list" where
  "explicit_entries e = map trim (split CHR '','' (trim (or_default (MINIO_NODES e) '''')))"

text \<open>
  The host of an entry is its text before the first colon; its port text is what stands
  between the first colon and the second (or the end), and is missing when the entry has
  no colon. An entry is well formed when the host is not empty and the port text starts,
  after optional white space and sign, with a decimal digit.
\<close>

definition entry_host :: "string \<Rightarrow> string" where
  "entry_host entry = takeWhile (\<lambda>c. c \<noteq> CHR '':'') entry"

definition entry_port_text :: "string \<Rightarrow> string option" where
  "entry_port_text entry =
     (case dropWhile (\<lambda>c. c \<noteq> CHR '':'') entry of
        [] \<Rightarrow> None
      | _ # rest \<Rightarrow> Some (takeWhile (\<lambda>c. c \<noteq> CHR '':'') rest))"

definition entry_ok :: "string \<Rightarrow> bool" where
  "entry_ok entry = (entry_host entry \<noteq> [] \<and> parseInt10 (entry_port_text entry) \<noteq> None)"

definition entry_node :: "string \<Rightarrow> node" where
  "entry_node entry =
     \<lparr>endpoint = entry_host entry, port = the (parseInt10 (entry_port_text entry))\<rparr>"

definition gapped_env :: env where
  "gapped_env = \<lparr>MINIO_NODES = Some ''a:9000,,b:9001'', MINIO_ENDPOINT = Some ''unused''\<rparr>"

section \<open>Background healing: \<open>healFileIfNeeded\<close> and \<open>runHealingCycle\<close>\<close>

text \<open>A file record as \<open>listAllFiles\<close> returns it: the id and the metadata fields read here.\<close>

record file_record =
  fm_id :: string
  fm_filename :: string
  fm_objectName :: string
  fm_mimetype :: "string option"

text \<open>\<open>${nodes[i]?.endpoint}:${nodes[i]?.port}\<close>\<close>

definition node_text :: "node list \<Rightarrow> nat \<Rightarrow> string" where
  "node_text nodes i =
     show_opt (\<lambda>s. s) (map_option endpoint (at_index nodes i)) @ '':''
     @ show_opt show_int (map_option port (at_index nodes i))"

definition opt_arg :: "string option \<Rightarrow> js_arg" where
  "opt_arg v = (case v of None \<Rightarrow> Undefined | Some s \<Rightarrow> Str s)"

text \<open>The \<open>TypeError\<close> of \<open>error.message.includes(...)\<close> when the message is undefined.\<close>

definition includes_of_undefined :: js_error where
  "includes_of_undefined =
     new_Error (''Cannot read properties of undefined (reading '' @ [CHR 0x27] @ ''includes''
                @ [CHR 0x27] @ '')'')"

text \<open>
  First loop: which nodes miss the file. A failed stat counts as missing when its code
  is \<open>NoSuchKey\<close> or its message contains \<open>not found\<close>; any other failure is logged as
  a node that appears down and the node is left alone.
\<close>

function detect_loop ::
  "world \<Rightarrow> client list \<Rightarrow> node list \<Rightarrow> string \<Rightarrow> nat \<Rightarrow> nat list
   \<Rightarrow> (js_error + nat list) \<times> effect list" where
  "detect_loop w clients nodes objectName i missingNodes =
     (if i < length clients
      then (case outcome (statObject w (clients ! i) objectName) of
              Inr _ \<Rightarrow>
                (let (r, effs) = detect_loop w clients nodes objectName (Suc i) missingNodes
                 in (r, StatObject (clients ! i) objectName # effs))
            | Inl error \<Rightarrow>
                if code error = Some ''NoSuchKey''
                then (let (r, effs) =
                            detect_loop w clients nodes objectName (Suc i) (missingNodes @ [i])
                      in (r, StatObject (clients ! i) objectName # effs))
                else (case message error of
                        None \<Rightarrow> (Inl includes_of_undefined, [StatObject (clients ! i) objectName])
                      | Some m \<Rightarrow>
                          if str_includes m ''not found''
                          then (let (r, effs) =
                                      detect_loop w clients nodes objectName (Suc i)
                                        (missingNodes @ [i])
                                in (r, StatObject (clients ! i) objectName # effs))
                          else (let (r, effs) =
                                      detect_loop w clients nodes objectName (Suc i) missingNodes
                                in (r, StatObject (clients ! i) objectName
                                       # ConsoleLog [Str (''Node '' @ node_text nodes i
                                                          @ '' appears down, skipping healing to it'')]
                                       # effs))))
      else (Inr missingNodes, []))"
  by pat_completeness auto
termination
  by (relation "measure (\<lambda>(w, clients, nodes, objectName, i, missingNodes). length clients - i)")
     auto

text \<open>Second loop: the first node not listed as missing whose stat succeeds now.\<close>

function source_loop ::
  "world \<Rightarrow> client list \<Rightarrow> string \<Rightarrow> nat list \<Rightarrow> nat \<Rightarrow> client option \<times> effect list" where
  "source_loop w clients objectName missingNodes i =
     (if i < length clients
      then (if i \<notin> set missingNodes
            then (case outcome (statObject w (clients ! i) objectName) of
                    Inr _ \<Rightarrow> (Some (clients ! i), [StatObject (clients ! i) objectName])
                  | Inl error \<Rightarrow>
                      (let (r, effs) = source_loop w clients objectName missingNodes (Suc i)
                       in (r, StatObject (clients ! i) objectName # effs)))
            else source_loop w clients objectName missingNodes (Suc i))
      else (None, []))"
  by pat_completeness auto
termination
  by (relation "measure (\<lambda>(w, clients, objectName, missingNodes, i). length clients - i)") auto

text \<open>
  \<open>copyFileToNode\<close>: open the stream on the source, read it to the end (which fails when
  the stream does), then put the bytes on the target.
\<close>

definition copyFileToNode ::
  "world \<Rightarrow> client \<Rightarrow> client \<Rightarrow> string \<Rightarrow> string option \<Rightarrow> (js_error + unit) \<times> effect list" where
  "copyFileToNode w sourceClient targetClient objectName contentType =
     (case getObject w sourceClient objectName of
        Inl err \<Rightarrow> (Inl err, [GetObject sourceClient objectName])
      | Inr s \<Rightarrow>
          (case read_error s of
             Some err \<Rightarrow> (Inl err, [GetObject sourceClient objectName])
           | None \<Rightarrow>
               (let buffer = concat (chunks s);
                    metaData = or_default contentType ''application/octet-stream''
                in (putObject w targetClient objectName buffer metaData,
                    [GetObject sourceClient objectName, PutObject targetClient objectName]))))"

text \<open>Third loop, \<open>for (const nodeIndex of missingNodes)\<close>: a failed copy is logged only.\<close>

fun heal_loop ::
  "world \<Rightarrow> client list \<Rightarrow> node list \<Rightarrow> client \<Rightarrow> string \<Rightarrow> file_record \<Rightarrow> nat list \<Rightarrow> effect list" where
  "heal_loop w clients nodes sourceClient fileId metadata [] = []"
| "heal_loop w clients nodes sourceClient fileId metadata (nodeIndex # rest) =
     (case copyFileToNode w sourceClient (clients ! nodeIndex) (fm_objectName metadata)
             (fm_mimetype metadata) of
        (Inr _, effs) \<Rightarrow>
          effs @ [ConsoleLog [Str (''Healed file '' @ fileId @ '' to node ''
                                  @ node_text nodes nodeIndex)]]
      | (Inl error, effs) \<Rightarrow>
          effs @ [ConsoleError [Str (''Failed to heal file '' @ fileId @ '' to node ''
                                    @ node_text nodes nodeIndex @ '':''),
                                opt_arg (message error)]])
     @ heal_loop w clients nodes sourceClient fileId metadata rest"

definition healFileIfNeeded ::
  "env \<Rightarrow> world \<Rightarrow> string \<Rightarrow> file_record \<Rightarrow> (js_error + bool) \<times> effect list" where
  "healFileIfNeeded e w fileId metadata =
     (case getMinioClients e of
        Inl err \<Rightarrow> (Inl err, [])
      | Inr clients \<Rightarrow>
          (case getMinioNodeConfigs e of
             Inl err \<Rightarrow> (Inl err, [])
           | Inr nodes \<Rightarrow>
               (case detect_loop w clients nodes (fm_objectName metadata) 0 [] of
                  (Inl err, effs1) \<Rightarrow> (Inl err, effs1)
                | (Inr missingNodes, effs1) \<Rightarrow>
                    if length missingNodes = 0 then (Inr False, effs1)
                    else (let starting =
                                ConsoleLog [Str (''File '' @ fileId @ '' ('' @ fm_filename metadata
                                                 @ '') missing on '' @ show_nat (length missingNodes)
                                                 @ '' nodes, healing...'')]
                          in case source_loop w clients (fm_objectName metadata) missingNodes 0 of
                               (None, effs2) \<Rightarrow>
                                 (Inr False,
                                  effs1 @ [starting] @ effs2
                                  @ [ConsoleError [Str (''No source node found for file '' @ fileId)]])
                             | (Some sourceClient, effs2) \<Rightarrow>
                                 (Inr True,
                                  effs1 @ [starting] @ effs2
                                  @ heal_loop w clients nodes sourceClient fileId metadata
                                      missingNodes)))))"

text \<open>
  The loop of \<open>runHealingCycle\<close> over the files, with the two counters; a file whose
  \<open>healFileIfNeeded\<close> throws is logged and counted as an error.
\<close>

fun cycle_loop ::
  "env \<Rightarrow> world \<Rightarrow> file_record list \<Rightarrow> nat \<Rightarrow> nat \<Rightarrow> (nat \<times> nat) \<times> effect list" where
  "cycle_loop e w [] healedCount errorCount = ((healedCount, errorCount), [])"
| "cycle_loop e w (f # rest) healedCount errorCount =
     (case healFileIfNeeded e w (fm_id f) f of
        (Inr wasHealed, effs) \<Rightarrow>
          (let (counts, effs') =
                 cycle_loop e w rest (if wasHealed then Suc healedCount else healedCount) errorCount
           in (counts, effs @ effs'))
      | (Inl error, effs) \<Rightarrow>
          (let (counts, effs') = cycle_loop e w rest healedCount (Suc errorCount)
           in (counts,
               effs @ [ConsoleError [Str (''Error healing file '' @ fm_id f @ '':''),
                                     opt_arg (message error)]] @ effs')))"

text \<open>
  \<open>runHealingCycle\<close>, given how \<open>listAllFiles\<close> ends. It returns nothing and never
  throws; what it does is what it sends and prints, the summary line last.
\<close>

definition runHealingCycle :: "env \<Rightarrow> world \<Rightarrow> js_error + file_record list \<Rightarrow> effect list" where
  "runHealingCycle e w listed =
     ConsoleLog [Str ''Starting healing cycle...'']
     # (case listed of
          Inl error \<Rightarrow> [ConsoleError [Str ''Error in healing cycle:'', Err error]]
        | Inr allFiles \<Rightarrow>
            ConsoleLog [Str (''Found '' @ show_nat (length allFiles) @ '' files to check'')]
            # (let ((healedCount, errorCount), effs) = cycle_loop e w allFiles 0 0
               in effs @ [ConsoleLog [Str (''Healing cycle completed - healed ''
                                           @ show_nat healedCount @ '' files, ''
                                           @ show_nat errorCount @ '' errors'')]]))"

section \<open>The healing service and its timer\<close>

record HealingService =
  isRunning :: bool
  intervalId :: "nat option"
  healingInterval :: nat

definition new_HealingService :: HealingService where
  "new_HealingService = \<lparr>isRunning = False, intervalId = None, healingInterval = 5 * 60 * 1000\<rparr>"

text \<open>
  The part of the JavaScript runtime the service touches: the interval timers that are
  set (by handle), the calls of the asynchronous \<open>runHealingCycle\<close> that have started and
  not yet finished, and the record of what the service did, in order. The body of
  \<open>runHealingCycle\<close> reads and writes no field of the service, so a cycle is only
  counted here.
\<close>

datatype action = Log string | CycleStarted | IntervalSet nat nat | IntervalCleared nat

record runtime =
  intervals :: "nat list"
  next_handle :: nat
  cycles_in_flight :: nat
  actions :: "action list"

definition console_log :: "string \<Rightarrow> runtime \<Rightarrow> runtime" where
  "console_log s rt = rt\<lparr>actions := actions rt @ [Log s]\<rparr>"

definition call_runHealingCycle :: "runtime \<Rightarrow> runtime" where
  "call_runHealingCycle rt =
     rt\<lparr>cycles_in_flight := Suc (cycles_in_flight rt), actions := actions rt @ [CycleStarted]\<rparr>"

definition setInterval :: "nat \<Rightarrow> runtime \<Rightarrow> nat \<times> runtime" where
  "setInterval period rt =
     (next_handle rt,
      rt\<lparr>intervals := intervals rt @ [next_handle rt], next_handle := Suc (next_handle rt),
         actions := actions rt @ [IntervalSet (next_handle rt) period]\<rparr>)"

definition clearInterval :: "nat \<Rightarrow> runtime \<Rightarrow> runtime" where
  "clearInterval h rt =
     rt\<lparr>intervals := removeAll h (intervals rt), actions := actions rt @ [IntervalCleared h]\<rparr>"

text \<open>
  \<open>start\<close> and \<open>stop\<close>, on the service object \<open>this\<close> and the runtime. The period that
  \<open>start\<close> prints is \<open>healingInterval / 1000 / 60\<close>, a whole number of minutes for the
  interval the constructor sets. A timer handle is an object, hence always truthy in
  \<open>if (this.intervalId)\<close>.
\<close>

definition start :: "HealingService \<times> runtime \<Rightarrow> HealingService \<times> runtime" where
  "start st =
     (case st of (this, rt) \<Rightarrow>
        if isRunning this then (this, console_log ''Healing service already running'' rt)
        else (let rt1 = console_log ''Starting background replication healing service...'' rt;
                  this1 = this\<lparr>isRunning := True\<rparr>;
                  rt2 = call_runHealingCycle rt1;
                  (h, rt3) = setInterval (healingInterval this1) rt2;
                  this2 = this1\<lparr>intervalId := Some h\<rparr>;
                  rt4 = console_log (''Healing service started - will run every ''
                                     @ show_nat (healingInterval this2 div 1000 div 60)
                                     @ '' minutes'') rt3
              in (this2, rt4)))"

definition stop :: "HealingService \<times> runtime \<Rightarrow> HealingService \<times> runtime" where
  "stop st =
     (case st of (this, rt) \<Rightarrow>
        if \<not> isRunning this then (this, console_log ''Healing service not running'' rt)
        else (let rt1 = console_log ''Stopping background replication healing service...'' rt;
                  this1 = this\<lparr>isRunning := False\<rparr>
              in case intervalId this1 of
                   Some h \<Rightarrow> (this1\<lparr>intervalId := None\<rparr>, clearInterval h rt1)
                 | None \<Rightarrow> (this1, rt1)))"

text \<open>
  What can happen to a service: a call of \<open>start\<close> or \<open>stop\<close>, an interval timer that is
  set fires (its callback calls \<open>runHealingCycle\<close>), a cycle in flight finishes. An
  event that cannot happen in a state (a timer that is not set, no cycle in flight)
  leaves the state as it is.
\<close>

datatype event = Start | Stop | Tick nat | CycleEnds

fun step :: "HealingService \<times> runtime \<Rightarrow> event \<Rightarrow> HealingService \<times> runtime" where
  "step st Start = start st"
| "step st Stop = stop st"
| "step (this, rt) (Tick h) =
     (if h \<in> set (intervals rt) then (this, call_runHealingCycle rt) else (this, rt))"
| "step (this, rt) CycleEnds =
     (if 0 < cycles_in_flight rt
      then (this, rt\<lparr>cycles_in_flight := cycles_in_flight rt - 1\<rparr>) else (this, rt))"

definition run :: "event list \<Rightarrow> HealingService \<times> runtime \<Rightarrow> HealingService \<times> runtime" where
  "run evs st = foldl step st evs"

definition fresh :: "HealingService \<times> runtime" where
  "fresh = (new_HealingService,
            \<lparr>intervals = [], next_handle = 0, cycles_in_flight = 0, actions = []\<rparr>)"

text \<open>
  The timer that is set is the one the service holds, and the service holds one exactly
  when it is running.
\<close>

definition timer_held :: "HealingService \<times> runtime \<Rightarrow> bool" where
  "timer_held st =
     (intervals (snd st) = (case intervalId (fst st) of None \<Rightarrow> [] | Some h \<Rightarrow> [h])
      \<and> (isRunning (fst st) \<longleftrightarrow> intervalId (fst st) \<noteq> None))"

section \<open>How a stat request ends, as the healing loops read it\<close>

text \<open>
  A stat that fails counts as "file missing on this node" when its code is
  \<open>NoSuchKey\<close> or its message contains \<open>not found\<close>. A stat that fails with another
  code and no message at all makes \<open>error.message.includes\<close> throw.
\<close>

definition reports_missing :: "js_error + unit \<Rightarrow> bool" where
  "reports_missing r =
     (case r of
        Inr _ \<Rightarrow> False
      | Inl err \<Rightarrow> code err = Some ''NoSuchKey''
                 \<or> (case message err of None \<Rightarrow> False | Some m \<Rightarrow> str_includes m ''not found''))"

definition stat_throws :: "js_error + unit \<Rightarrow> bool" where
  "stat_throws r =
     (case r of Inr _ \<Rightarrow> False | Inl err \<Rightarrow> code err \<noteq> Some ''NoSuchKey'' \<and> message err = None)"

text \<open>
  Example stores for the healing loop: one where no node has the object, and one where
  the object \<open>u1/f1.txt\<close> is on the node on port 9003 only, every other object is on all
  nodes, and every write fails.
\<close>

definition no_such_key :: js_error where
  "no_such_key = \<lparr>code = Some ''NoSuchKey'', message = Some ''The specified key does not exist.''\<rparr>"

definition nowhere :: world where
  "nowhere =
     \<lparr>putObject = (\<lambda>c k b t. Inr ()),
      getObject = (\<lambda>c k. Inl no_such_key),
      statObject = (\<lambda>c k. \<lparr>outcome = Inl no_such_key, delay_ms = 1\<rparr>),
      removeObject = (\<lambda>c k. Inr ())\<rparr>"

definition copies_fail :: world where
  "copies_fail =
     \<lparr>putObject = (\<lambda>c k b t. Inl (new_Error ''disk full'')),
      getObject = (\<lambda>c k. Inr (Stream [''ab'', ''c''] None)),
      statObject = (\<lambda>c k. \<lparr>outcome = (if k = ''u1/f1.txt'' \<and> client_port c \<noteq> 9003
                                         then Inl no_such_key else Inr ()),
                            delay_ms = 1\<rparr>),
      removeObject = (\<lambda>c k. Inr ())\<rparr>"

definition report_txt :: file_record where
  "report_txt = \<lparr>fm_id = ''f1'', fm_filename = ''report.txt'', fm_objectName = ''u1/f1.txt'',
                  fm_mimetype = Some ''text/plain''\<rparr>"

text \<open>
  For one file on a resolved registry: the first loop throws when some node's stat makes
  it throw; a heal is attempted when some node reports the file missing and some node's
  stat succeeds (that node is then found as the source).
\<close>

definition first_loop_throws :: "node list \<Rightarrow> world \<Rightarrow> string \<Rightarrow> bool" where
  "first_loop_throws nodes w k =
     (\<exists>n\<in>set nodes. stat_throws (outcome (statObject w (new_Client n) k)))"

definition heal_attempted :: "node list \<Rightarrow> world \<Rightarrow> string \<Rightarrow> bool" where
  "heal_attempted nodes w k =
     ((\<exists>n\<in>set nodes. reports_missing (outcome (statObject w (new_Client n) k)))
      \<and> (\<exists>n\<in>set nodes. \<not> isl (outcome (statObject w (new_Client n) k))))"

text \<open>
  A store set in which the file is missing on ports 9001 and 9005 and the node on port
  9003 rejects the stat with the code \<open>AccessDenied\<close> and no message.
\<close>

definition denied_no_message :: world where
  "denied_no_message =
     \<lparr>putObject = (\<lambda>c k b t. Inr ()),
      getObject = (\<lambda>c k. Inl no_such_key),
      statObject = (\<lambda>c k. \<lparr>outcome = (if client_port c = 9003
                                         then Inl \<lparr>code = Some ''AccessDenied'', message = None\<rparr>
                                         else Inl no_such_key),
                            delay_ms = 1\<rparr>),
      removeObject = (\<lambda>c k. Inr ())\<rparr>"

text \<open>A second file, which \<open>copies_fail\<close> holds on every node.\<close>

definition notes_txt :: file_record where
  "notes_txt = \<lparr>fm_id = ''f2'', fm_filename = ''notes.txt'', fm_objectName = ''u1/f2.txt'',
                 fm_mimetype = Some ''text/plain''\<rparr>"

section \<open>Properties of the failover read path\<close>

declare read_loop.simps [simp del]

lemma parseMinioNodes_default: "parseMinioNodes default_env = Inr default_nodes"
  by (simp add: parseMinioNodes_def default_env_def default_nodes_def or_default_def trim_def
        Let_def)

lemma read_loop_all_fail:
  assumes "\<forall>j. i \<le> j \<and> j < length clients \<longrightarrow> isl (getObject w (clients ! j) k)"
  shows "read_loop w clients nodes k i lastError =
           (Inl (if i < length clients then projl (getObject w (last clients) k)
                 else (case lastError of Some error \<Rightarrow> error
                        | None \<Rightarrow> new_Error ''File not found in any replica'')),
            map (\<lambda>c. GetObject c k) (drop i clients))"
  using assms
proof (induction w clients nodes k i lastError rule: read_loop.induct)
  case (1 w clients nodes k i lastError)
  show ?case
  proof (cases "i < length clients")
    case False
    then show ?thesis by (subst read_loop.simps) simp
  next
    case True
    then have fail: "isl (getObject w (clients ! i) k)" using "1.prems" by simp
    then obtain err where err: "getObject w (clients ! i) k = Inl err"
      by (cases "getObject w (clients ! i) k") auto
    have rest: "\<forall>j. Suc i \<le> j \<and> j < length clients \<longrightarrow> isl (getObject w (clients ! j) k)"
      using "1.prems" by simp
    note IH = "1.IH"[OF True err rest]
    have dr: "drop i clients = clients ! i # drop (Suc i) clients"
      using True by (simp add: Cons_nth_drop_Suc)
    show ?thesis
    proof (cases "Suc i < length clients")
      case True
      then show ?thesis using IH err dr \<open>i < length clients\<close>
        by (subst read_loop.simps) simp
    next
      case False
      then have "length clients = Suc i" using \<open>i < length clients\<close> by simp
      moreover have "clients \<noteq> []" using \<open>i < length clients\<close> by auto
      ultimately have "clients ! i = last clients"
        by (simp add: last_conv_nth)
      then show ?thesis using IH err dr \<open>i < length clients\<close> False
        by (subst read_loop.simps) simp
    qed
  qed
qed

lemma read_loop_first_success:
  assumes "i \<le> m" "m < length clients" "getObject w (clients ! m) k = Inr s"
    "\<forall>j. i \<le> j \<and> j < m \<longrightarrow> isl (getObject w (clients ! j) k)"
  shows "read_loop w clients nodes k i lastError =
           (Inr \<lparr>rr_stream = s, rr_nodeIndex = m,
                 rr_nodePort = map_option port (at_index nodes m),
                 rr_nodeEndpoint = map_option endpoint (at_index nodes m)\<rparr>,
            map (\<lambda>c. GetObject c k) (take (Suc m - i) (drop i clients)))"
  using assms
proof (induction w clients nodes k i lastError rule: read_loop.induct)
  case (1 w clients nodes k i lastError)
  have il: "i < length clients" using "1.prems" by simp
  have dr: "drop i clients = clients ! i # drop (Suc i) clients"
    using il by (simp add: Cons_nth_drop_Suc)
  show ?case
  proof (cases "i = m")
    case True
    then show ?thesis using "1.prems" il dr
      by (subst read_loop.simps) simp
  next
    case False
    then have lt: "i < m" using "1.prems" by simp
    then have "isl (getObject w (clients ! i) k)" using "1.prems" by simp
    then obtain err where err: "getObject w (clients ! i) k = Inl err"
      by (cases "getObject w (clients ! i) k") auto
    have "read_loop w clients nodes k (Suc i) (Some err) =
           (Inr \<lparr>rr_stream = s, rr_nodeIndex = m,
                 rr_nodePort = map_option port (at_index nodes m),
                 rr_nodeEndpoint = map_option endpoint (at_index nodes m)\<rparr>,
            map (\<lambda>c. GetObject c k) (take (Suc m - Suc i) (drop (Suc i) clients)))"
      using "1.IH"[OF il err] lt "1.prems" by simp
    moreover have "Suc m - i = Suc (Suc m - Suc i)" using lt by simp
    ultimately show ?thesis using err il dr
      by (subst read_loop.simps) simp
  qed
qed


lemma getFileStreamFromReplica_resolved:
  assumes "parseMinioNodes e = Inr nodes"
  shows "getFileStreamFromReplica e w k = read_loop w (map new_Client nodes) nodes k 0 None"
  using assms by (simp add: getFileStreamFromReplica_def getMinioClients_def getMinioNodeConfigs_def)

text \<open>
  Claim C2. Once the registry is resolved, \<open>getFileStreamFromReplica\<close> tries the nodes
  in registry order and returns at the first node whose \<open>getObject\<close> succeeds: it
  succeeds exactly when some node serves the object; the index it returns is the lowest
  one that serves it, and the requests sent are those to the nodes up to that index and
  no further.
\<close>

theorem getFileStreamFromReplica_first_success:
  assumes "parseMinioNodes e = Inr nodes"
  shows "((\<exists>r. fst (getFileStreamFromReplica e w k) = Inr r)
            \<longleftrightarrow> (\<exists>i<length nodes. \<not> isl (getObject w (new_Client (nodes ! i)) k)))
       \<and> (\<forall>i s. i < length nodes \<and> getObject w (new_Client (nodes ! i)) k = Inr s
                 \<and> (\<forall>j<i. isl (getObject w (new_Client (nodes ! j)) k))
             \<longrightarrow> getFileStreamFromReplica e w k =
                   (Inr \<lparr>rr_stream = s, rr_nodeIndex = i,
                         rr_nodePort = Some (port (nodes ! i)),
                         rr_nodeEndpoint = Some (endpoint (nodes ! i))\<rparr>,
                    map (\<lambda>n. GetObject (new_Client n) k) (take (Suc i) nodes)))"
proof -
  let ?clients = "map new_Client nodes"
  let ?ok = "\<lambda>i. \<not> isl (getObject w (new_Client (nodes ! i)) k)"
  have run: "getFileStreamFromReplica e w k = read_loop w ?clients nodes k 0 None"
    by (rule getFileStreamFromReplica_resolved [OF assms])
  have first: "getFileStreamFromReplica e w k =
                   (Inr \<lparr>rr_stream = s, rr_nodeIndex = i,
                         rr_nodePort = Some (port (nodes ! i)),
                         rr_nodeEndpoint = Some (endpoint (nodes ! i))\<rparr>,
                    map (\<lambda>n. GetObject (new_Client n) k) (take (Suc i) nodes))"
    if "i < length nodes" "getObject w (new_Client (nodes ! i)) k = Inr s"
       "\<forall>j<i. isl (getObject w (new_Client (nodes ! j)) k)" for i s
  proof -
    have "read_loop w ?clients nodes k 0 None =
           (Inr \<lparr>rr_stream = s, rr_nodeIndex = i,
                 rr_nodePort = map_option port (at_index nodes i),
                 rr_nodeEndpoint = map_option endpoint (at_index nodes i)\<rparr>,
            map (\<lambda>c. GetObject c k) (take (Suc i - 0) (drop 0 ?clients)))"
      using that by (intro read_loop_first_success) auto
    then show ?thesis using run that(1) by (simp add: at_index_def take_map comp_def)
  qed
  have iff: "(\<exists>r. fst (getFileStreamFromReplica e w k) = Inr r) \<longleftrightarrow> (\<exists>i<length nodes. ?ok i)"
  proof
    assume "\<exists>r. fst (getFileStreamFromReplica e w k) = Inr r"
    then obtain r where r: "fst (getFileStreamFromReplica e w k) = Inr r" ..
    show "\<exists>i<length nodes. ?ok i"
    proof (rule ccontr)
      assume "\<not> (\<exists>i<length nodes. ?ok i)"
      then have "\<forall>j. 0 \<le> j \<and> j < length ?clients \<longrightarrow> isl (getObject w (?clients ! j) k)"
        by simp
      from read_loop_all_fail [OF this] have "isl (fst (read_loop w ?clients nodes k 0 None))"
        by simp
      then show False using r run by simp
    qed
  next
    assume "\<exists>i<length nodes. ?ok i"
    then obtain i where i: "i < length nodes \<and> ?ok i" by blast
    define m where "m = (LEAST i. i < length nodes \<and> ?ok i)"
    have m: "m < length nodes \<and> ?ok m" unfolding m_def by (rule LeastI [of _ i]) (rule i)
    have least: "\<forall>j<m. isl (getObject w (new_Client (nodes ! j)) k)"
    proof (intro allI impI)
      fix j assume "j < m"
      then have "\<not> (j < length nodes \<and> ?ok j)" unfolding m_def by (rule not_less_Least)
      moreover have "j < length nodes" using \<open>j < m\<close> m by simp
      ultimately show "isl (getObject w (new_Client (nodes ! j)) k)" by simp
    qed
    obtain s where s: "getObject w (new_Client (nodes ! m)) k = Inr s"
      using m by (cases "getObject w (new_Client (nodes ! m)) k") auto
    from first [of m s] m s least show "\<exists>r. fst (getFileStreamFromReplica e w k) = Inr r"
      by simp
  qed
  from iff first show ?thesis by blast
qed

theorem getFileStreamFromReplica_first_success_witness:
  "parseMinioNodes default_env = Inr default_nodes
   \<and> (\<exists>r. fst (getFileStreamFromReplica default_env first_down ''k'') = Inr r)
   \<and> getFileStreamFromReplica default_env first_down ''k'' =
       (Inr \<lparr>rr_stream = Stream [''abc''] None, rr_nodeIndex = 1,
             rr_nodePort = Some 9003, rr_nodeEndpoint = Some ''localhost''\<rparr>,
        [GetObject (Client ''localhost'' 9001) ''k'', GetObject (Client ''localhost'' 9003) ''k''])"
proof -
  have h: "parseMinioNodes default_env = Inr default_nodes" by (rule parseMinioNodes_default)
  have ok: "\<exists>i<length default_nodes. \<not> isl (getObject first_down (new_Client (default_nodes ! i)) ''k'')"
    by (rule exI [of _ 1]) (simp add: default_nodes_def first_down_def new_Client_def)
  have pre: "1 < length default_nodes
      \<and> getObject first_down (new_Client (default_nodes ! 1)) ''k'' = Inr (Stream [''abc''] None)
      \<and> (\<forall>j<1. isl (getObject first_down (new_Client (default_nodes ! j)) ''k''))"
    by (simp add: default_nodes_def first_down_def new_Client_def)
  note inst = getFileStreamFromReplica_first_success [OF h, of first_down "''k''"]
  from inst ok have a: "\<exists>r. fst (getFileStreamFromReplica default_env first_down ''k'') = Inr r"
    by blast
  from inst pre have b: "getFileStreamFromReplica default_env first_down ''k'' =
       (Inr \<lparr>rr_stream = Stream [''abc''] None, rr_nodeIndex = 1,
             rr_nodePort = Some (port (default_nodes ! 1)),
             rr_nodeEndpoint = Some (endpoint (default_nodes ! 1))\<rparr>,
        map (\<lambda>n. GetObject (new_Client n) ''k'') (take (Suc 1) default_nodes))"
    by blast
  show ?thesis using h a b by (simp add: default_nodes_def new_Client_def)
qed

text \<open>
  Claim C5. When the registry has at least one node and every node fails, the error
  thrown by \<open>getFileStreamFromReplica\<close> is the one of the last node tried, after a
  request to every node.
\<close>

theorem getFileStreamFromReplica_last_error:
  assumes "parseMinioNodes e = Inr nodes" and "nodes \<noteq> []"
    and "\<forall>i<length nodes. getObject w (new_Client (nodes ! i)) k = Inl (errs i)"
  shows "getFileStreamFromReplica e w k =
           (Inl (errs (length nodes - 1)), map (\<lambda>n. GetObject (new_Client n) k) nodes)"
proof -
  let ?clients = "map new_Client nodes"
  have "\<forall>j. 0 \<le> j \<and> j < length ?clients \<longrightarrow> isl (getObject w (?clients ! j) k)"
    using assms(3) by simp
  from read_loop_all_fail [OF this, of nodes None]
  have "read_loop w ?clients nodes k 0 None =
          (Inl (projl (getObject w (last ?clients) k)), map (\<lambda>c. GetObject c k) ?clients)"
    using assms(2) by simp
  moreover have "last ?clients = new_Client (nodes ! (length nodes - 1))"
    using assms(2) by (simp add: last_map last_conv_nth)
  moreover have "getObject w (new_Client (nodes ! (length nodes - 1))) k = Inl (errs (length nodes - 1))"
    using assms(2,3) by simp
  ultimately show ?thesis
    using getFileStreamFromReplica_resolved [OF assms(1), of w k] by (simp add: comp_def)
qed

theorem getFileStreamFromReplica_last_error_witness:
  "parseMinioNodes default_env = Inr default_nodes \<and> default_nodes \<noteq> []
   \<and> getObject all_down (Client ''localhost'' 9001) ''k''
       = Inl (new_Error ''connect ECONNREFUSED 127.0.0.1:9001'')
   \<and> getObject all_down (Client ''localhost'' 9003) ''k''
       = Inl (new_Error ''connect ECONNREFUSED 127.0.0.1:9003'')
   \<and> getObject all_down (Client ''localhost'' 9005) ''k''
       = Inl (new_Error ''connect ECONNREFUSED 127.0.0.1:9005'')
   \<and> fst (getFileStreamFromReplica default_env all_down ''k'')
       = Inl (new_Error ''connect ECONNREFUSED 127.0.0.1:9005'')"
proof -
  have h1: "parseMinioNodes default_env = Inr default_nodes" by (rule parseMinioNodes_default)
  have h2: "default_nodes \<noteq> []" by (simp add: default_nodes_def)
  have h3: "\<forall>i<length default_nodes.
         getObject all_down (new_Client (default_nodes ! i)) ''k''
           = Inl (down_error (new_Client (default_nodes ! i)))"
    by (simp add: all_down_def)
  have each: "getObject all_down (Client ''localhost'' 9001) ''k''
       = Inl (new_Error ''connect ECONNREFUSED 127.0.0.1:9001'')"
    "getObject all_down (Client ''localhost'' 9003) ''k''
       = Inl (new_Error ''connect ECONNREFUSED 127.0.0.1:9003'')"
    "getObject all_down (Client ''localhost'' 9005) ''k''
       = Inl (new_Error ''connect ECONNREFUSED 127.0.0.1:9005'')"
    by (simp_all add: all_down_def down_error_def show_int_def)
  from getFileStreamFromReplica_last_error [OF h1 h2 h3]
  show ?thesis using h1 h2 each
    by (simp add: default_nodes_def down_error_def new_Client_def show_int_def)
qed

section \<open>Properties of delete and discovery\<close>

declare delete_loop.simps [simp del]
declare locate_loop.simps [simp del]

lemma delete_loop_all:
  "delete_loop w clients nodes k i results =
     (results @ map (\<lambda>j. \<lparr>dr_nodeIndex = j,
                          dr_nodeEndpoint = map_option endpoint (at_index nodes j),
                          dr_nodePort = map_option port (at_index nodes j),
                          dr_success = \<not> isl (removeObject w (clients ! j) k),
                          dr_error = (case removeObject w (clients ! j) k of
                                        Inl err \<Rightarrow> message err | Inr _ \<Rightarrow> None)\<rparr>)
                     [i..<length clients],
      map (\<lambda>c. RemoveObject c k) (drop i clients))"
proof (induction w clients nodes k i results rule: delete_loop.induct)
  case (1 w clients nodes k i results)
  show ?case
  proof (cases "i < length clients")
    case False
    then show ?thesis by (subst delete_loop.simps) simp
  next
    case True
    have dr: "drop i clients = clients ! i # drop (Suc i) clients"
      using True by (simp add: Cons_nth_drop_Suc)
    have up: "[i..<length clients] = i # [Suc i..<length clients]"
      using True by (simp add: upt_conv_Cons)
    show ?thesis
    proof (cases "removeObject w (clients ! i) k")
      case (Inl err)
      from "1.IH"(1) [OF True Inl] Inl True dr up show ?thesis
        by (subst delete_loop.simps) simp
    next
      case (Inr u)
      from "1.IH"(2) [OF True Inr] Inr True dr up show ?thesis
        by (subst delete_loop.simps) simp
    qed
  qed
qed

lemma locate_loop_all:
  "locate_loop w clients nodes k i locations =
     (locations @ map (\<lambda>j. \<lparr>loc_nodeIndex = j,
                            loc_endpoint = map_option endpoint (at_index nodes j),
                            loc_port = map_option port (at_index nodes j)\<rparr>)
                     (filter (\<lambda>j. \<not> isl (race_stat_timeout (statObject w (clients ! j) k)))
                        [i..<length clients]),
      map (\<lambda>c. StatObject c k) (drop i clients))"
proof (induction w clients nodes k i locations rule: locate_loop.induct)
  case (1 w clients nodes k i locations)
  show ?case
  proof (cases "i < length clients")
    case False
    then show ?thesis by (subst locate_loop.simps) simp
  next
    case True
    have dr: "drop i clients = clients ! i # drop (Suc i) clients"
      using True by (simp add: Cons_nth_drop_Suc)
    have up: "[i..<length clients] = i # [Suc i..<length clients]"
      using True by (simp add: upt_conv_Cons)
    show ?thesis
    proof (cases "race_stat_timeout (statObject w (clients ! i) k)")
      case (Inl err)
      from "1.IH"(1) [OF True Inl] Inl True dr up show ?thesis
        by (subst locate_loop.simps) simp
    next
      case (Inr u)
      from "1.IH"(2) [OF True Inr] Inr True dr up show ?thesis
        by (subst locate_loop.simps) simp
    qed
  qed
qed

text \<open>
  Claim C3. Once the registry is resolved, \<open>deleteFileFromAllReplicas\<close> sends a
  \<open>removeObject\<close> request to every node, in registry order and whatever the earlier
  requests did, never throws, and returns one record per node; record \<open>i\<close> carries
  index \<open>i\<close> and the descriptor of node \<open>i\<close>, and is marked as a success exactly when
  the request to node \<open>i\<close> succeeded (otherwise it carries that request's error message).
\<close>

theorem deleteFileFromAllReplicas_reports_every_node:
  assumes "parseMinioNodes e = Inr nodes"
  shows "\<exists>results.
           deleteFileFromAllReplicas e w k
             = (Inr results, map (\<lambda>n. RemoveObject (new_Client n) k) nodes)
         \<and> length results = length nodes
         \<and> (\<forall>i<length nodes.
               results ! i =
                 \<lparr>dr_nodeIndex = i,
                  dr_nodeEndpoint = Some (endpoint (nodes ! i)),
                  dr_nodePort = Some (port (nodes ! i)),
                  dr_success = \<not> isl (removeObject w (new_Client (nodes ! i)) k),
                  dr_error = (case removeObject w (new_Client (nodes ! i)) k of
                                Inl err \<Rightarrow> message err | Inr _ \<Rightarrow> None)\<rparr>)"
  using assms
  by (simp add: deleteFileFromAllReplicas_def getMinioClients_def getMinioNodeConfigs_def
        delete_loop_all at_index_def comp_def)

theorem deleteFileFromAllReplicas_reports_every_node_witness:
  "parseMinioNodes default_env = Inr default_nodes
   \<and> deleteFileFromAllReplicas default_env first_down ''k'' =
      (Inr [\<lparr>dr_nodeIndex = 0, dr_nodeEndpoint = Some ''localhost'', dr_nodePort = Some 9001,
             dr_success = False, dr_error = Some ''connect ECONNREFUSED 127.0.0.1:9001''\<rparr>,
            \<lparr>dr_nodeIndex = 1, dr_nodeEndpoint = Some ''localhost'', dr_nodePort = Some 9003,
             dr_success = True, dr_error = None\<rparr>,
            \<lparr>dr_nodeIndex = 2, dr_nodeEndpoint = Some ''localhost'', dr_nodePort = Some 9005,
             dr_success = True, dr_error = None\<rparr>],
       [RemoveObject (Client ''localhost'' 9001) ''k'',
        RemoveObject (Client ''localhost'' 9003) ''k'',
        RemoveObject (Client ''localhost'' 9005) ''k''])"
proof -
  have h: "parseMinioNodes default_env = Inr default_nodes" by (rule parseMinioNodes_default)
  from deleteFileFromAllReplicas_reports_every_node [OF h, of first_down "''k''"]
  obtain results where
    run: "deleteFileFromAllReplicas default_env first_down ''k''
            = (Inr results, map (\<lambda>n. RemoveObject (new_Client n) ''k'') default_nodes)"
    and len: "length results = length default_nodes"
    and each: "\<forall>i<length default_nodes.
               results ! i =
                 \<lparr>dr_nodeIndex = i,
                  dr_nodeEndpoint = Some (endpoint (default_nodes ! i)),
                  dr_nodePort = Some (port (default_nodes ! i)),
                  dr_success = \<not> isl (removeObject first_down (new_Client (default_nodes ! i)) ''k''),
                  dr_error = (case removeObject first_down (new_Client (default_nodes ! i)) ''k'' of
                                Inl err \<Rightarrow> message err | Inr _ \<Rightarrow> None)\<rparr>"
    by blast
  have "results = [results ! 0, results ! 1, results ! 2]"
    using len
    by (intro nth_equalityI) (auto simp: default_nodes_def nth_Cons' less_Suc_eq eval_nat_numeral)
  moreover have "results ! 0 = \<lparr>dr_nodeIndex = 0, dr_nodeEndpoint = Some ''localhost'', dr_nodePort = Some 9001,
             dr_success = False, dr_error = Some ''connect ECONNREFUSED 127.0.0.1:9001''\<rparr>"
    using each [rule_format, of 0]
    by (simp add: default_nodes_def first_down_def new_Client_def new_Error_def)
  moreover have "results ! 1 = \<lparr>dr_nodeIndex = 1, dr_nodeEndpoint = Some ''localhost'', dr_nodePort = Some 9003,
             dr_success = True, dr_error = None\<rparr>"
    using each [rule_format, of 1]
    by (simp add: default_nodes_def first_down_def new_Client_def new_Error_def)
  moreover have "results ! 2 = \<lparr>dr_nodeIndex = 2, dr_nodeEndpoint = Some ''localhost'', dr_nodePort = Some 9005,
             dr_success = True, dr_error = None\<rparr>"
    using each [rule_format, of 2]
    by (simp add: default_nodes_def first_down_def new_Client_def new_Error_def)
  ultimately show ?thesis using h run
    by (simp add: default_nodes_def new_Client_def)
qed

declare locate_loop_untimed.simps [simp del]

lemma locate_loop_untimed_all:
  "locate_loop_untimed w clients nodes k i locations =
     (locations @ map (\<lambda>j. \<lparr>loc_nodeIndex = j,
                            loc_endpoint = map_option endpoint (at_index nodes j),
                            loc_port = map_option port (at_index nodes j)\<rparr>)
                     (filter (\<lambda>j. \<not> isl (outcome (statObject w (clients ! j) k)))
                        [i..<length clients]),
      map (\<lambda>c. StatObject c k) (drop i clients))"
proof (induction w clients nodes k i locations rule: locate_loop_untimed.induct)
  case (1 w clients nodes k i locations)
  show ?case
  proof (cases "i < length clients")
    case False
    then show ?thesis by (subst locate_loop_untimed.simps) simp
  next
    case True
    have dr: "drop i clients = clients ! i # drop (Suc i) clients"
      using True by (simp add: Cons_nth_drop_Suc)
    have up: "[i..<length clients] = i # [Suc i..<length clients]"
      using True by (simp add: upt_conv_Cons)
    show ?thesis
    proof (cases "outcome (statObject w (clients ! i) k)")
      case (Inl err)
      from "1.IH"(1) [OF True Inl] Inl True dr up show ?thesis
        by (subst locate_loop_untimed.simps) simp
    next
      case (Inr u)
      from "1.IH"(2) [OF True Inr] Inr True dr up show ?thesis
        by (subst locate_loop_untimed.simps) simp
    qed
  qed
qed

text \<open>
  What either version returns, given which stat requests it takes as a success: the
  locations of those nodes, in registry order, after one stat request to every node.
\<close>

lemma located_list:
  fixes ok :: "nat \<Rightarrow> bool" and nodes :: "node list"
  defines "locations \<equiv>
             map (\<lambda>i. \<lparr>loc_nodeIndex = i, loc_endpoint = Some (endpoint (nodes ! i)),
                       loc_port = Some (port (nodes ! i))\<rparr>)
               (filter ok [0..<length nodes])"
  shows "length locations \<le> length nodes"
    and "sorted (map loc_nodeIndex locations)"
    and "distinct (map loc_nodeIndex locations)"
    and "\<forall>i<length nodes. i \<in> set (map loc_nodeIndex locations) \<longleftrightarrow> ok i"
proof -
  have idx: "map loc_nodeIndex locations = filter ok [0..<length nodes]"
    by (simp add: locations_def comp_def)
  show "length locations \<le> length nodes"
    using length_filter_le [of ok "[0..<length nodes]"] by (simp add: locations_def)
  show "sorted (map loc_nodeIndex locations)" unfolding idx by (rule sorted_wrt_filter) simp
  show "distinct (map loc_nodeIndex locations)" unfolding idx by simp
  show "\<forall>i<length nodes. i \<in> set (map loc_nodeIndex locations) \<longleftrightarrow> ok i"
    unfolding idx by simp
qed

lemma getStorageLocations_timed_result:
  assumes "parseMinioNodes e = Inr nodes"
  shows "getStorageLocations e w k =
           (Inr (map (\<lambda>i. \<lparr>loc_nodeIndex = i, loc_endpoint = Some (endpoint (nodes ! i)),
                            loc_port = Some (port (nodes ! i))\<rparr>)
                   (filter (\<lambda>i. delay_ms (statObject w (new_Client (nodes ! i)) k) < 3000
                                 \<and> \<not> isl (outcome (statObject w (new_Client (nodes ! i)) k)))
                      [0..<length nodes])),
            map (\<lambda>n. StatObject (new_Client n) k) nodes)"
proof -
  let ?ok = "\<lambda>i. delay_ms (statObject w (new_Client (nodes ! i)) k) < 3000
                   \<and> \<not> isl (outcome (statObject w (new_Client (nodes ! i)) k))"
  have flt: "filter (\<lambda>j. \<not> isl (race_stat_timeout (statObject w (map new_Client nodes ! j) k)))
               [0..<length nodes] = filter ?ok [0..<length nodes]"
    by (rule filter_cong) (auto simp: race_stat_timeout_def)
  have mp: "map (\<lambda>j. \<lparr>loc_nodeIndex = j,
                            loc_endpoint = map_option endpoint (at_index nodes j),
                            loc_port = map_option port (at_index nodes j)\<rparr>)
              (filter ?ok [0..<length nodes])
            = map (\<lambda>i. \<lparr>loc_nodeIndex = i, loc_endpoint = Some (endpoint (nodes ! i)),
                            loc_port = Some (port (nodes ! i))\<rparr>) (filter ?ok [0..<length nodes])"
    by (rule map_cong) (auto simp: at_index_def)
  show ?thesis using assms
    by (simp add: getStorageLocations_def getMinioClients_def getMinioNodeConfigs_def
          locate_loop_all flt mp comp_def)
qed

lemma getStorageLocations_untimed_result:
  assumes "parseMinioNodes e = Inr nodes"
  shows "getStorageLocations_untimed e w k =
           (Inr (map (\<lambda>i. \<lparr>loc_nodeIndex = i, loc_endpoint = Some (endpoint (nodes ! i)),
                            loc_port = Some (port (nodes ! i))\<rparr>)
                   (filter (\<lambda>i. \<not> isl (outcome (statObject w (new_Client (nodes ! i)) k)))
                      [0..<length nodes])),
            map (\<lambda>n. StatObject (new_Client n) k) nodes)"
proof -
  let ?ok = "\<lambda>i. \<not> isl (outcome (statObject w (new_Client (nodes ! i)) k))"
  have flt: "filter (\<lambda>j. \<not> isl (outcome (statObject w (map new_Client nodes ! j) k)))
               [0..<length nodes] = filter ?ok [0..<length nodes]"
    by (rule filter_cong) auto
  have mp: "map (\<lambda>j. \<lparr>loc_nodeIndex = j,
                            loc_endpoint = map_option endpoint (at_index nodes j),
                            loc_port = map_option port (at_index nodes j)\<rparr>)
              (filter ?ok [0..<length nodes])
            = map (\<lambda>i. \<lparr>loc_nodeIndex = i, loc_endpoint = Some (endpoint (nodes ! i)),
                            loc_port = Some (port (nodes ! i))\<rparr>) (filter ?ok [0..<length nodes])"
    by (rule map_cong) (auto simp: at_index_def)
  show ?thesis using assms
    by (simp add: getStorageLocations_untimed_def getMinioClients_def getMinioNodeConfigs_def
          locate_loop_untimed_all flt mp comp_def)
qed

text \<open>
  Claim C4, as the code has it. Once the registry is resolved, both versions of
  \<open>getStorageLocations\<close> send one stat request to every node, in registry order, never
  throw for a failed stat, and return the locations of some of the nodes, in registry
  order and each at most once, so between 0 and N of them. In the version of
  \<open>src/unnamed/part_004\<close> every stat is raced against the 3000 ms timer and a node is
  returned exactly when its stat succeeded before the timer fired. In the version of
  \<open>src/backend/services/minioService.js\<close> there is no timer and a node is returned
  exactly when its stat succeeded, however long it took.
\<close>

theorem getStorageLocations_both_versions:
  assumes "parseMinioNodes e = Inr nodes"
  shows "(\<exists>locations.
           getStorageLocations e w k
             = (Inr locations, map (\<lambda>n. StatObject (new_Client n) k) nodes)
         \<and> locations =
             map (\<lambda>i. \<lparr>loc_nodeIndex = i, loc_endpoint = Some (endpoint (nodes ! i)),
                       loc_port = Some (port (nodes ! i))\<rparr>)
               (filter (\<lambda>i. delay_ms (statObject w (new_Client (nodes ! i)) k) < 3000
                             \<and> \<not> isl (outcome (statObject w (new_Client (nodes ! i)) k)))
                  [0..<length nodes])
         \<and> length locations \<le> length nodes
         \<and> sorted (map loc_nodeIndex locations) \<and> distinct (map loc_nodeIndex locations)
         \<and> (\<forall>i<length nodes.
               i \<in> set (map loc_nodeIndex locations)
               \<longleftrightarrow> delay_ms (statObject w (new_Client (nodes ! i)) k) < 3000
                    \<and> \<not> isl (outcome (statObject w (new_Client (nodes ! i)) k))))
       \<and> (\<exists>locations.
           getStorageLocations_untimed e w k
             = (Inr locations, map (\<lambda>n. StatObject (new_Client n) k) nodes)
         \<and> locations =
             map (\<lambda>i. \<lparr>loc_nodeIndex = i, loc_endpoint = Some (endpoint (nodes ! i)),
                       loc_port = Some (port (nodes ! i))\<rparr>)
               (filter (\<lambda>i. \<not> isl (outcome (statObject w (new_Client (nodes ! i)) k)))
                  [0..<length nodes])
         \<and> length locations \<le> length nodes
         \<and> sorted (map loc_nodeIndex locations) \<and> distinct (map loc_nodeIndex locations)
         \<and> (\<forall>i<length nodes.
               i \<in> set (map loc_nodeIndex locations)
               \<longleftrightarrow> \<not> isl (outcome (statObject w (new_Client (nodes ! i)) k))))"
proof (rule conjI)
  let ?ok = "\<lambda>i. delay_ms (statObject w (new_Client (nodes ! i)) k) < 3000
                   \<and> \<not> isl (outcome (statObject w (new_Client (nodes ! i)) k))"
  from getStorageLocations_timed_result [OF assms, of w k] located_list [of nodes ?ok]
  show "\<exists>locations.
           getStorageLocations e w k
             = (Inr locations, map (\<lambda>n. StatObject (new_Client n) k) nodes)
         \<and> locations =
             map (\<lambda>i. \<lparr>loc_nodeIndex = i, loc_endpoint = Some (endpoint (nodes ! i)),
                       loc_port = Some (port (nodes ! i))\<rparr>)
               (filter ?ok [0..<length nodes])
         \<and> length locations \<le> length nodes
         \<and> sorted (map loc_nodeIndex locations) \<and> distinct (map loc_nodeIndex locations)
         \<and> (\<forall>i<length nodes. i \<in> set (map loc_nodeIndex locations) \<longleftrightarrow> ?ok i)"
    by blast
next
  let ?ok = "\<lambda>i. \<not> isl (outcome (statObject w (new_Client (nodes ! i)) k))"
  from getStorageLocations_untimed_result [OF assms, of w k] located_list [of nodes ?ok]
  show "\<exists>locations.
           getStorageLocations_untimed e w k
             = (Inr locations, map (\<lambda>n. StatObject (new_Client n) k) nodes)
         \<and> locations =
             map (\<lambda>i. \<lparr>loc_nodeIndex = i, loc_endpoint = Some (endpoint (nodes ! i)),
                       loc_port = Some (port (nodes ! i))\<rparr>)
               (filter ?ok [0..<length nodes])
         \<and> length locations \<le> length nodes
         \<and> sorted (map loc_nodeIndex locations) \<and> distinct (map loc_nodeIndex locations)
         \<and> (\<forall>i<length nodes. i \<in> set (map loc_nodeIndex locations) \<longleftrightarrow> ?ok i)"
    by blast
qed

theorem getStorageLocations_both_versions_witness:
  "parseMinioNodes default_env = Inr default_nodes
   \<and> delay_ms (statObject first_down (Client ''localhost'' 9003) ''k'') = 4000
   \<and> getStorageLocations default_env first_down ''k'' =
      (Inr [\<lparr>loc_nodeIndex = 2, loc_endpoint = Some ''localhost'', loc_port = Some 9005\<rparr>],
       [StatObject (Client ''localhost'' 9001) ''k'',
        StatObject (Client ''localhost'' 9003) ''k'',
        StatObject (Client ''localhost'' 9005) ''k''])
   \<and> getStorageLocations_untimed default_env first_down ''k'' =
      (Inr [\<lparr>loc_nodeIndex = 1, loc_endpoint = Some ''localhost'', loc_port = Some 9003\<rparr>,
            \<lparr>loc_nodeIndex = 2, loc_endpoint = Some ''localhost'', loc_port = Some 9005\<rparr>],
       [StatObject (Client ''localhost'' 9001) ''k'',
        StatObject (Client ''localhost'' 9003) ''k'',
        StatObject (Client ''localhost'' 9005) ''k''])"
proof -
  have h: "parseMinioNodes default_env = Inr default_nodes" by (rule parseMinioNodes_default)
  have up: "[0..<length default_nodes] = [0, 1, 2]"
    by (simp add: default_nodes_def upt_rec)
  have late: "delay_ms (statObject first_down (Client ''localhost'' 9003) ''k'') = 4000"
    by (simp add: first_down_def)
  from getStorageLocations_both_versions [OF h, of first_down "''k''"]
  show ?thesis using h late
    by (simp add: up) (simp add: default_nodes_def first_down_def new_Client_def)
qed

text \<open>
  Claim C4 as stated fails on \<open>src/backend/services/minioService.js\<close>: the node on port
  9003 answers the stat after 4000 ms, past the 3000 ms window, and is returned all the
  same.
\<close>

theorem getStorageLocations_untimed_returns_late_node:
  "delay_ms (statObject first_down (Client ''localhost'' 9003) ''k'') = 4000
   \<and> getStorageLocations_untimed default_env first_down ''k'' =
      (Inr [\<lparr>loc_nodeIndex = 1, loc_endpoint = Some ''localhost'', loc_port = Some 9003\<rparr>,
            \<lparr>loc_nodeIndex = 2, loc_endpoint = Some ''localhost'', loc_port = Some 9005\<rparr>],
       [StatObject (Client ''localhost'' 9001) ''k'',
        StatObject (Client ''localhost'' 9003) ''k'',
        StatObject (Client ''localhost'' 9005) ''k''])"
proof -
  have up: "[0..<length default_nodes] = [0, 1, 2]"
    by (simp add: default_nodes_def upt_rec)
  have "getStorageLocations_untimed default_env first_down ''k'' =
      (Inr [\<lparr>loc_nodeIndex = 1, loc_endpoint = Some ''localhost'', loc_port = Some 9003\<rparr>,
            \<lparr>loc_nodeIndex = 2, loc_endpoint = Some ''localhost'', loc_port = Some 9005\<rparr>],
       [StatObject (Client ''localhost'' 9001) ''k'',
        StatObject (Client ''localhost'' 9003) ''k'',
        StatObject (Client ''localhost'' 9005) ''k''])"
    by (simp add: getStorageLocations_untimed_result [OF parseMinioNodes_default] up)
       (simp add: default_nodes_def first_down_def new_Client_def)
  then show ?thesis by (simp add: first_down_def)
qed

section \<open>Properties of the node registry\<close>

lemma split_acc_shape:
  "split_acc sep acc s =
     (rev acc @ takeWhile (\<lambda>c. c \<noteq> sep) s)
     # (case dropWhile (\<lambda>c. c \<noteq> sep) s of [] \<Rightarrow> [] | _ # rest \<Rightarrow> split_acc sep [] rest)"
  by (induction s arbitrary: acc) auto

lemma split_shape:
  "split sep s =
     takeWhile (\<lambda>c. c \<noteq> sep) s
     # (case dropWhile (\<lambda>c. c \<noteq> sep) s of [] \<Rightarrow> [] | _ # rest \<Rightarrow> split sep rest)"
  unfolding split_def by (subst split_acc_shape) simp

lemma split_not_empty: "split sep s \<noteq> []"
  by (subst split_shape) simp

lemma parse_entry_pieces:
  "parse_entry entry = (if entry_ok entry then Inr (entry_node entry) else Inl (invalid_entry entry))"
proof -
  let ?rest = "dropWhile (\<lambda>c. c \<noteq> CHR '':'') entry"
  have h: "hd (split CHR '':'' entry) = entry_host entry"
    by (subst split_shape) (simp add: entry_host_def)
  have p: "(case tl (split CHR '':'' entry) of [] \<Rightarrow> None | p # _ \<Rightarrow> Some p) = entry_port_text entry"
  proof (cases ?rest)
    case Nil
    then show ?thesis
      by (subst split_shape) (simp add: entry_port_text_def del: dropWhile_eq_Nil_conv)
  next
    case (Cons a rest)
    have "tl (split CHR '':'' entry) = split CHR '':'' rest"
      by (subst split_shape) (simp add: Cons)
    also have "\<dots> = takeWhile (\<lambda>c. c \<noteq> CHR '':'') rest #
                 (case dropWhile (\<lambda>c. c \<noteq> CHR '':'') rest of [] \<Rightarrow> []
                  | _ # others \<Rightarrow> split CHR '':'' others)"
      by (rule split_shape)
    finally show ?thesis by (simp add: entry_port_text_def Cons)
  qed
  show ?thesis
    unfolding parse_entry_def Let_def h p
    by (simp add: entry_ok_def entry_node_def split: option.splits)
qed

lemma map_entries_eq:
  "map_entries es =
     (case find (\<lambda>s. \<not> entry_ok s) es of
        None \<Rightarrow> Inr (map entry_node es)
      | Some bad \<Rightarrow> Inl (invalid_entry bad))"
  by (induction es) (simp_all add: parse_entry_pieces split: option.splits)

lemma parseMinioNodes_explicit_eq:
  assumes "trim (or_default (MINIO_NODES e) '''') \<noteq> []"
  shows "parseMinioNodes e =
           (case find (\<lambda>s. s \<noteq> [] \<and> \<not> entry_ok s) (explicit_entries e) of
              None \<Rightarrow> Inr (map entry_node (filter (\<lambda>s. s \<noteq> []) (explicit_entries e)))
            | Some bad \<Rightarrow> Inl (invalid_entry bad))"
proof -
  have f: "find P (filter Q xs) = find (\<lambda>x. Q x \<and> P x) xs" for P Q and xs :: "string list"
    by (induction xs) simp_all
  show ?thesis using assms unfolding explicit_entries_def
    by (simp add: parseMinioNodes_def Let_def map_entries_eq f)
qed

text \<open>
  Claim C6, as the code has it. When \<open>MINIO_NODES\<close> is not blank, the registry is read
  from it alone, whatever \<open>MINIO_ENDPOINT\<close> says. Entries that are empty after trimming
  are dropped without an error. A configuration error is thrown exactly when some
  non-empty entry is not well formed (empty host, or a port text that \<open>parseInt\<close> cannot
  read), and it names the first such entry; otherwise there is one node per non-empty
  entry, in order.
\<close>

theorem parseMinioNodes_explicit_list:
  assumes "trim (or_default (MINIO_NODES e) '''') \<noteq> []"
  shows "parseMinioNodes (e\<lparr>MINIO_ENDPOINT := ep\<rparr>) = parseMinioNodes e
       \<and> ((\<exists>err. parseMinioNodes e = Inl err)
            \<longleftrightarrow> (\<exists>entry \<in> set (explicit_entries e). entry \<noteq> [] \<and> \<not> entry_ok entry))
       \<and> (\<forall>err. parseMinioNodes e = Inl err
            \<longrightarrow> (\<exists>bad. find (\<lambda>s. s \<noteq> [] \<and> \<not> entry_ok s) (explicit_entries e) = Some bad
                       \<and> err = invalid_entry bad))
       \<and> (\<forall>ns. parseMinioNodes e = Inr ns
            \<longrightarrow> ns = map entry_node (filter (\<lambda>s. s \<noteq> []) (explicit_entries e)))"
proof -
  let ?bad = "\<lambda>s. s \<noteq> [] \<and> \<not> entry_ok s"
  note eq = parseMinioNodes_explicit_eq [OF assms]
  have a: "parseMinioNodes (e\<lparr>MINIO_ENDPOINT := ep\<rparr>) = parseMinioNodes e"
    using assms by (simp add: parseMinioNodes_def Let_def)
  have b: "(\<exists>err. parseMinioNodes e = Inl err) \<longleftrightarrow> (\<exists>entry \<in> set (explicit_entries e). ?bad entry)"
  proof (cases "find ?bad (explicit_entries e)")
    case None
    then have "\<not> isl (parseMinioNodes e)" by (simp add: eq)
    moreover have "\<not> (\<exists>entry \<in> set (explicit_entries e). ?bad entry)"
      using None by (simp add: find_None_iff)
    ultimately show ?thesis by auto
  next
    case (Some bad)
    then have "parseMinioNodes e = Inl (invalid_entry bad)" by (simp add: eq)
    moreover have "bad \<in> set (explicit_entries e) \<and> ?bad bad"
      using Some by (auto simp: find_Some_iff)
    ultimately show ?thesis by blast
  qed
  have c: "\<forall>err. parseMinioNodes e = Inl err
            \<longrightarrow> (\<exists>bad. find ?bad (explicit_entries e) = Some bad \<and> err = invalid_entry bad)"
    by (cases "find ?bad (explicit_entries e)") (simp_all add: eq)
  have d: "\<forall>ns. parseMinioNodes e = Inr ns
            \<longrightarrow> ns = map entry_node (filter (\<lambda>s. s \<noteq> []) (explicit_entries e))"
    by (cases "find ?bad (explicit_entries e)") (simp_all add: eq)
  from a b c d show ?thesis by blast
qed

lemma gapped_entries: "explicit_entries gapped_env = [''a:9000'', [], ''b:9001'']"
  by (simp add: explicit_entries_def gapped_env_def or_default_def trim_def is_space_def split_def)

lemma gapped_nodes:
  "parseMinioNodes gapped_env
     = Inr [\<lparr>endpoint = ''a'', port = 9000\<rparr>, \<lparr>endpoint = ''b'', port = 9001\<rparr>]"
  by (simp add: parseMinioNodes_def gapped_env_def or_default_def trim_def is_space_def
        split_def parse_entry_def parseInt10_def trim_start_def is_digit_def digits_val_def
        digit_val_def)

theorem parseMinioNodes_explicit_list_witness:
  "trim (or_default (MINIO_NODES gapped_env) '''') \<noteq> []
   \<and> parseMinioNodes (gapped_env\<lparr>MINIO_ENDPOINT := Some ''elsewhere''\<rparr>) = parseMinioNodes gapped_env
   \<and> parseMinioNodes gapped_env
       = Inr [\<lparr>endpoint = ''a'', port = 9000\<rparr>, \<lparr>endpoint = ''b'', port = 9001\<rparr>]"
proof -
  have h: "trim (or_default (MINIO_NODES gapped_env) '''') \<noteq> []"
    by (simp add: gapped_env_def or_default_def trim_def is_space_def)
  from parseMinioNodes_explicit_list [OF h, of "Some ''elsewhere''"] h gapped_nodes
  show ?thesis by simp
qed

text \<open>
  Claim C6 as stated fails: in \<open>a:9000,,b:9001\<close> the second entry is empty, and the
  registry resolves to the two other nodes without any error.
\<close>

theorem parseMinioNodes_skips_empty_entry:
  "explicit_entries gapped_env = [''a:9000'', [], ''b:9001'']
   \<and> parseMinioNodes gapped_env
       = Inr [\<lparr>endpoint = ''a'', port = 9000\<rparr>, \<lparr>endpoint = ''b'', port = 9001\<rparr>]"
  using gapped_entries gapped_nodes by simp

section \<open>Properties of the healing service\<close>

lemmas service_defs =
  start_def stop_def console_log_def call_runHealingCycle_def setInterval_def clearInterval_def

lemma timer_held_step: "timer_held st \<Longrightarrow> timer_held (step st ev)"
proof (cases st)
  case (Pair this rt)
  assume "timer_held st"
  then show ?thesis using Pair
    by (cases ev) (auto simp: timer_held_def service_defs Let_def split: option.splits)
qed

lemma run_snoc: "run (evs @ [ev]) st = step (run evs st) ev"
  by (simp add: run_def)

lemma timer_held_run: "timer_held (run evs fresh)"
proof (induction evs rule: rev_induct)
  case Nil
  show ?case by (simp add: run_def fresh_def timer_held_def new_HealingService_def)
next
  case (snoc ev evs)
  then show ?case using timer_held_step [of "run evs fresh" ev] by (simp add: run_snoc)
qed

lemma run_Start_fresh:
  "run [Start] fresh =
     (\<lparr>isRunning = True, intervalId = Some 0, healingInterval = 300000\<rparr>,
      \<lparr>intervals = [0], next_handle = 1, cycles_in_flight = 1,
       actions = [Log ''Starting background replication healing service...'', CycleStarted,
                  IntervalSet 0 300000,
                  Log ''Healing service started - will run every 5 minutes'']\<rparr>)"
  by (simp add: run_def fresh_def new_HealingService_def service_defs Let_def)

text \<open>
  Claim C7, as the code has it. The only flag is \<open>isRunning\<close>, and only \<open>start\<close> and
  \<open>stop\<close> read it. In every state the service can reach, at most one interval timer is
  set, namely the one the service holds, and one is set exactly when the service is
  running; a \<open>start\<close> call while the service is running begins no cycle and sets no
  timer. A tick of the timer begins a cycle whatever the number of cycles in flight:
  the count goes up by one.
\<close>

theorem isRunning_guards_start_not_ticks:
  "timer_held (run evs fresh)
   \<and> length (intervals (snd (run evs fresh))) \<le> 1
   \<and> (isRunning (fst (run evs fresh)) \<longrightarrow>
        cycles_in_flight (snd (run (evs @ [Start]) fresh)) = cycles_in_flight (snd (run evs fresh))
        \<and> intervals (snd (run (evs @ [Start]) fresh)) = intervals (snd (run evs fresh)))
   \<and> (\<forall>h \<in> set (intervals (snd (run evs fresh))).
        cycles_in_flight (snd (run (evs @ [Tick h]) fresh))
          = Suc (cycles_in_flight (snd (run evs fresh))))"
proof -
  obtain this rt where st: "run evs fresh = (this, rt)" by (cases "run evs fresh")
  have held: "timer_held (run evs fresh)" by (rule timer_held_run)
  then have len: "length (intervals (snd (run evs fresh))) \<le> 1"
    by (simp add: timer_held_def split: option.splits)
  have again: "isRunning (fst (run evs fresh)) \<longrightarrow>
        cycles_in_flight (snd (run (evs @ [Start]) fresh)) = cycles_in_flight (snd (run evs fresh))
        \<and> intervals (snd (run (evs @ [Start]) fresh)) = intervals (snd (run evs fresh))"
    by (simp add: run_snoc st start_def console_log_def)
  have tick: "\<forall>h \<in> set (intervals (snd (run evs fresh))).
        cycles_in_flight (snd (run (evs @ [Tick h]) fresh))
          = Suc (cycles_in_flight (snd (run evs fresh)))"
  proof
    fix h assume "h \<in> set (intervals (snd (run evs fresh)))"
    then have "h \<in> set (intervals rt)" by (simp add: st)
    moreover have "run (evs @ [Tick h]) fresh = step (this, rt) (Tick h)"
      by (simp add: run_snoc st)
    ultimately show "cycles_in_flight (snd (run (evs @ [Tick h]) fresh))
          = Suc (cycles_in_flight (snd (run evs fresh)))"
      by (simp add: st call_runHealingCycle_def)
  qed
  from held len again tick show ?thesis by blast
qed

theorem isRunning_guards_start_not_ticks_witness:
  "isRunning (fst (run [Start] fresh))
   \<and> intervals (snd (run [Start] fresh)) = [0]
   \<and> cycles_in_flight (snd (run [Start] fresh)) = 1
   \<and> cycles_in_flight (snd (run ([Start] @ [Start]) fresh)) = 1
   \<and> intervals (snd (run ([Start] @ [Start]) fresh)) = [0]
   \<and> cycles_in_flight (snd (run ([Start] @ [Tick 0]) fresh)) = 2"
proof -
  note inst = isRunning_guards_start_not_ticks [of "[Start]"]
  have r: "isRunning (fst (run [Start] fresh))" by (simp add: run_Start_fresh)
  have i: "intervals (snd (run [Start] fresh)) = [0]" by (simp add: run_Start_fresh)
  have c: "cycles_in_flight (snd (run [Start] fresh)) = 1" by (simp add: run_Start_fresh)
  from inst r
  have again: "cycles_in_flight (snd (run ([Start] @ [Start]) fresh))
                 = cycles_in_flight (snd (run [Start] fresh))"
      "intervals (snd (run ([Start] @ [Start]) fresh)) = intervals (snd (run [Start] fresh))"
    by blast+
  have "0 \<in> set (intervals (snd (run [Start] fresh)))" by (simp only: i) simp
  with inst
  have tick: "cycles_in_flight (snd (run ([Start] @ [Tick 0]) fresh))
                = Suc (cycles_in_flight (snd (run [Start] fresh)))"
    by blast
  show ?thesis
    by (simp only: r i c again tick) simp
qed

text \<open>
  Claim C7 as stated fails: after \<open>start\<close>, a tick of the timer while the first cycle
  has not finished leaves two cycles in flight; so does \<open>stop\<close> followed by \<open>start\<close>.
\<close>

theorem tick_during_cycle_overlaps:
  "cycles_in_flight (snd (run [Start, Tick 0] fresh)) = 2
   \<and> cycles_in_flight (snd (run [Start, Stop, Start] fresh)) = 2"
  by (simp add: run_def fresh_def new_HealingService_def service_defs Let_def)

text \<open>
  Claim C9. \<open>start\<close> on a stopped service sets \<open>isRunning\<close>, calls \<open>runHealingCycle\<close>
  once and only then sets the interval timer, whose handle it keeps; \<open>start\<close> on a
  running service returns without throwing and changes nothing in the service, the
  timers or the cycles: it only prints a line. So a second \<open>start\<close> in a row leaves the
  service, the timers and the cycles as the first left them.
\<close>

theorem start_runs_cycle_then_timer_and_is_idempotent:
  "(\<not> isRunning this \<longrightarrow>
      start (this, rt) =
        (this\<lparr>isRunning := True, intervalId := Some (next_handle rt)\<rparr>,
         rt\<lparr>intervals := intervals rt @ [next_handle rt],
            next_handle := Suc (next_handle rt),
            cycles_in_flight := Suc (cycles_in_flight rt),
            actions := actions rt
              @ [Log ''Starting background replication healing service...'',
                 CycleStarted,
                 IntervalSet (next_handle rt) (healingInterval this),
                 Log (''Healing service started - will run every ''
                      @ show_nat (healingInterval this div 1000 div 60) @ '' minutes'')]\<rparr>))
   \<and> (isRunning this \<longrightarrow>
        start (this, rt) =
          (this, rt\<lparr>actions := actions rt @ [Log ''Healing service already running'']\<rparr>))
   \<and> isRunning (fst (start (this, rt)))
   \<and> start (start (this, rt)) =
        (fst (start (this, rt)),
         (snd (start (this, rt)))
           \<lparr>actions := actions (snd (start (this, rt)))
                         @ [Log ''Healing service already running'']\<rparr>)"
  by (simp add: service_defs Let_def del: show_nat.simps)

theorem start_runs_cycle_then_timer_and_is_idempotent_witness:
  "\<not> isRunning (fst fresh)
   \<and> start fresh =
       (\<lparr>isRunning = True, intervalId = Some 0, healingInterval = 300000\<rparr>,
        \<lparr>intervals = [0], next_handle = 1, cycles_in_flight = 1,
         actions = [Log ''Starting background replication healing service...'', CycleStarted,
                    IntervalSet 0 300000,
                    Log ''Healing service started - will run every 5 minutes'']\<rparr>)
   \<and> isRunning (fst (start fresh))
   \<and> start (start fresh) =
       (\<lparr>isRunning = True, intervalId = Some 0, healingInterval = 300000\<rparr>,
        \<lparr>intervals = [0], next_handle = 1, cycles_in_flight = 1,
         actions = [Log ''Starting background replication healing service...'', CycleStarted,
                    IntervalSet 0 300000,
                    Log ''Healing service started - will run every 5 minutes'',
                    Log ''Healing service already running'']\<rparr>)"
proof -
  have stopped: "\<not> isRunning (fst fresh)" by (simp add: fresh_def new_HealingService_def)
  have first: "start fresh =
       (\<lparr>isRunning = True, intervalId = Some 0, healingInterval = 300000\<rparr>,
        \<lparr>intervals = [0], next_handle = 1, cycles_in_flight = 1,
         actions = [Log ''Starting background replication healing service...'', CycleStarted,
                    IntervalSet 0 300000,
                    Log ''Healing service started - will run every 5 minutes'']\<rparr>)"
    using run_Start_fresh by (simp add: run_def del: show_nat.simps)
  from start_runs_cycle_then_timer_and_is_idempotent [of "fst fresh" "snd fresh"]
  have "isRunning (fst (start fresh))
        \<and> start (start fresh) =
            (fst (start fresh),
             (snd (start fresh))\<lparr>actions := actions (snd (start fresh))
                                            @ [Log ''Healing service already running'']\<rparr>)"
    by simp
  then show ?thesis using stopped by (simp add: first)
qed

section \<open>Properties of the healing cycle\<close>

declare detect_loop.simps [simp del]
declare source_loop.simps [simp del]
declare show_nat.simps [simp del]

lemma detect_loop_result:
  assumes "\<forall>j. i \<le> j \<and> j < length clients
               \<longrightarrow> \<not> stat_throws (outcome (statObject w (clients ! j) k))"
  shows "fst (detect_loop w clients nodes k i missing) =
           Inr (missing @ filter (\<lambda>j. reports_missing (outcome (statObject w (clients ! j) k)))
                            [i..<length clients])"
  using assms
proof (induction w clients nodes k i missing rule: detect_loop.induct)
  case (1 w clients nodes k i missing)
  show ?case
  proof (cases "i < length clients")
    case False
    then show ?thesis by (subst detect_loop.simps) simp
  next
    case True
    have up: "[i..<length clients] = i # [Suc i..<length clients]"
      using True by (simp add: upt_conv_Cons)
    have rest: "\<forall>j. Suc i \<le> j \<and> j < length clients
                  \<longrightarrow> \<not> stat_throws (outcome (statObject w (clients ! j) k))"
      using "1.prems" by simp
    have here: "\<not> stat_throws (outcome (statObject w (clients ! i) k))"
      using "1.prems" True by simp
    show ?thesis
    proof (cases "outcome (statObject w (clients ! i) k)")
      case (Inr u)
      from "1.IH"(4) [OF True Inr rest] Inr True up show ?thesis
        by (subst detect_loop.simps) (simp add: case_prod_beta reports_missing_def)
    next
      case (Inl err)
      show ?thesis
      proof (cases "code err = Some ''NoSuchKey''")
        case True
        from "1.IH"(1) [OF \<open>i < length clients\<close> Inl True rest] Inl True \<open>i < length clients\<close> up
        show ?thesis
          by (subst detect_loop.simps) (simp add: case_prod_beta reports_missing_def)
      next
        case False
        then obtain m where m: "message err = Some m"
          using here Inl by (cases "message err") (auto simp: stat_throws_def)
        show ?thesis
        proof (cases "str_includes m ''not found''")
          case True
          from "1.IH"(2) [OF \<open>i < length clients\<close> Inl False m True rest]
               Inl False m True \<open>i < length clients\<close> up
          show ?thesis
            by (subst detect_loop.simps) (simp add: case_prod_beta reports_missing_def)
        next
          case nf: False
          from "1.IH"(3) [OF \<open>i < length clients\<close> Inl False m nf rest]
               Inl False m nf \<open>i < length clients\<close> up
          show ?thesis
            by (subst detect_loop.simps) (simp add: case_prod_beta reports_missing_def)
        qed
      qed
    qed
  qed
qed

lemma source_loop_none:
  assumes "\<forall>j. i \<le> j \<and> j < length clients \<and> j \<notin> set missing
               \<longrightarrow> isl (outcome (statObject w (clients ! j) k))"
  shows "fst (source_loop w clients k missing i) = None"
  using assms
proof (induction w clients k missing i rule: source_loop.induct)
  case (1 w clients k missing i)
  show ?case
  proof (cases "i < length clients")
    case False
    then show ?thesis by (subst source_loop.simps) simp
  next
    case True
    have rest: "\<forall>j. Suc i \<le> j \<and> j < length clients \<and> j \<notin> set missing
                  \<longrightarrow> isl (outcome (statObject w (clients ! j) k))"
      using "1.prems" by simp
    show ?thesis
    proof (cases "i \<in> set missing")
      case True
      from "1.IH"(2) [OF \<open>i < length clients\<close> _ rest] True \<open>i < length clients\<close>
      show ?thesis by (subst source_loop.simps) simp
    next
      case False
      then have "isl (outcome (statObject w (clients ! i) k))"
        using "1.prems" True by simp
      then obtain err where err: "outcome (statObject w (clients ! i) k) = Inl err"
        by (cases "outcome (statObject w (clients ! i) k)") auto
      from "1.IH"(1) [OF True False err rest] err False True
      show ?thesis by (subst source_loop.simps) (simp add: case_prod_beta)
    qed
  qed
qed

lemma source_loop_some:
  assumes "i \<le> m" "m < length clients" "m \<notin> set missing"
    "\<not> isl (outcome (statObject w (clients ! m) k))"
  shows "\<exists>c. fst (source_loop w clients k missing i) = Some c"
  using assms
proof (induction w clients k missing i rule: source_loop.induct)
  case (1 w clients k missing i)
  have il: "i < length clients" using "1.prems" by simp
  show ?case
  proof (cases "i = m")
    case True
    then obtain u where "outcome (statObject w (clients ! i) k) = Inr u"
      using "1.prems" by (cases "outcome (statObject w (clients ! i) k)") auto
    then show ?thesis using True "1.prems" il
      by (subst source_loop.simps) simp
  next
    case False
    then have le: "Suc i \<le> m" using "1.prems" by simp
    show ?thesis
    proof (cases "i \<in> set missing")
      case True
      from "1.IH"(2) [OF il _ le "1.prems"(2,3,4)] True il
      show ?thesis by (subst source_loop.simps) simp
    next
      case nm: False
      show ?thesis
      proof (cases "outcome (statObject w (clients ! i) k)")
        case (Inr u)
        then show ?thesis using nm il by (subst source_loop.simps) simp
      next
        case (Inl err)
        from "1.IH"(1) [OF il nm Inl le "1.prems"(2,3,4)] Inl nm il
        show ?thesis by (subst source_loop.simps) (simp add: case_prod_beta)
      qed
    qed
  qed
qed

lemma missing_found:
  assumes "parseMinioNodes e = Inr nodes"
    and "\<forall>n\<in>set nodes. \<not> stat_throws (outcome (statObject w (new_Client n) k))"
  shows "fst (detect_loop w (map new_Client nodes) nodes k 0 []) =
           Inr (filter (\<lambda>j. reports_missing (outcome (statObject w (new_Client (nodes ! j)) k)))
                  [0..<length nodes])"
proof -
  have "\<forall>j. 0 \<le> j \<and> j < length (map new_Client nodes)
             \<longrightarrow> \<not> stat_throws (outcome (statObject w (map new_Client nodes ! j) k))"
    using assms(2) by simp
  from detect_loop_result [OF this, of nodes "[]"]
  have "fst (detect_loop w (map new_Client nodes) nodes k 0 []) =
          Inr (filter (\<lambda>j. reports_missing (outcome (statObject w (map new_Client nodes ! j) k)))
                 [0..<length nodes])"
    by simp
  moreover have "filter (\<lambda>j. reports_missing (outcome (statObject w (map new_Client nodes ! j) k)))
                   [0..<length nodes]
               = filter (\<lambda>j. reports_missing (outcome (statObject w (new_Client (nodes ! j)) k)))
                   [0..<length nodes]"
    by (rule filter_cong) auto
  ultimately show ?thesis by simp
qed

lemma healFileIfNeeded_resolved:
  assumes "parseMinioNodes e = Inr nodes"
  shows "healFileIfNeeded e w fileId f =
           (case detect_loop w (map new_Client nodes) nodes (fm_objectName f) 0 [] of
              (Inl err, effs1) \<Rightarrow> (Inl err, effs1)
            | (Inr missingNodes, effs1) \<Rightarrow>
                if length missingNodes = 0 then (Inr False, effs1)
                else (let starting =
                            ConsoleLog [Str (''File '' @ fileId @ '' ('' @ fm_filename f
                                             @ '') missing on '' @ show_nat (length missingNodes)
                                             @ '' nodes, healing...'')]
                      in case source_loop w (map new_Client nodes) (fm_objectName f)
                                missingNodes 0 of
                           (None, effs2) \<Rightarrow>
                             (Inr False,
                              effs1 @ [starting] @ effs2
                              @ [ConsoleError [Str (''No source node found for file '' @ fileId)]])
                         | (Some sourceClient, effs2) \<Rightarrow>
                             (Inr True,
                              effs1 @ [starting] @ effs2
                              @ heal_loop w (map new_Client nodes) nodes sourceClient fileId f
                                  missingNodes)))"
  using assms
  by (simp add: healFileIfNeeded_def getMinioClients_def getMinioNodeConfigs_def)

lemma some_missing:
  assumes "\<exists>n\<in>set nodes. reports_missing (outcome (statObject w (new_Client n) k))"
  shows "filter (\<lambda>j. reports_missing (outcome (statObject w (new_Client (nodes ! j)) k)))
           [0..<length nodes] \<noteq> []"
proof -
  from assms obtain j where "j < length nodes"
      "reports_missing (outcome (statObject w (new_Client (nodes ! j)) k))"
    by (auto simp: in_set_conv_nth)
  then show ?thesis by (auto simp: filter_empty_conv)
qed

lemma detect_loop_throws:
  assumes "i \<le> m" "m < length clients"
    "stat_throws (outcome (statObject w (clients ! m) k))"
  shows "fst (detect_loop w clients nodes k i missing) = Inl includes_of_undefined"
  using assms
proof (induction w clients nodes k i missing rule: detect_loop.induct)
  case (1 w clients nodes k i missing)
  have il: "i < length clients" using "1.prems" by simp
  have later: "i \<noteq> m \<Longrightarrow> Suc i \<le> m" using "1.prems" by simp
  show ?case
  proof (cases "outcome (statObject w (clients ! i) k)")
    case (Inr u)
    then have "i \<noteq> m" using "1.prems" by (auto simp: stat_throws_def)
    from "1.IH"(4) [OF il Inr later [OF this] "1.prems"(2,3)] Inr il show ?thesis
      by (subst detect_loop.simps) (simp add: case_prod_beta)
  next
    case (Inl err)
    show ?thesis
    proof (cases "code err = Some ''NoSuchKey''")
      case True
      then have "i \<noteq> m" using "1.prems" Inl by (auto simp: stat_throws_def)
      from "1.IH"(1) [OF il Inl True later [OF this] "1.prems"(2,3)] Inl True il
      show ?thesis by (subst detect_loop.simps) (simp add: case_prod_beta)
    next
      case False
      show ?thesis
      proof (cases "message err")
        case None
        then show ?thesis using Inl False il by (subst detect_loop.simps) simp
      next
        case (Some msg)
        then have ne: "i \<noteq> m" using "1.prems" Inl by (auto simp: stat_throws_def)
        show ?thesis
        proof (cases "str_includes msg ''not found''")
          case True
          from "1.IH"(2) [OF il Inl False Some True later [OF ne] "1.prems"(2,3)]
               Inl False Some True il
          show ?thesis by (subst detect_loop.simps) (simp add: case_prod_beta)
        next
          case nf: False
          from "1.IH"(3) [OF il Inl False Some nf later [OF ne] "1.prems"(2,3)]
               Inl False Some nf il
          show ?thesis by (subst detect_loop.simps) (simp add: case_prod_beta)
        qed
      qed
    qed
  qed
qed

text \<open>
  How \<open>healFileIfNeeded\<close> ends on a resolved registry: it throws when the first loop
  does; otherwise it returns whether a heal was attempted.
\<close>

lemma healFileIfNeeded_result:
  assumes "parseMinioNodes e = Inr nodes"
  shows "fst (healFileIfNeeded e w fileId f) =
           (if first_loop_throws nodes w (fm_objectName f) then Inl includes_of_undefined
            else Inr (heal_attempted nodes w (fm_objectName f)))"
proof (cases "first_loop_throws nodes w (fm_objectName f)")
  case True
  let ?k = "fm_objectName f"
  let ?clients = "map new_Client nodes"
  from True obtain m where m: "m < length nodes"
      "stat_throws (outcome (statObject w (new_Client (nodes ! m)) ?k))"
    by (auto simp: first_loop_throws_def in_set_conv_nth)
  then have "fst (detect_loop w ?clients nodes ?k 0 []) = Inl includes_of_undefined"
    by (intro detect_loop_throws [of 0 m]) simp_all
  then obtain effs1 where "detect_loop w ?clients nodes ?k 0 [] = (Inl includes_of_undefined, effs1)"
    by (cases "detect_loop w ?clients nodes ?k 0 []") simp
  then show ?thesis using True by (simp add: healFileIfNeeded_resolved [OF assms])
next
  case False
  let ?k = "fm_objectName f"
  let ?clients = "map new_Client nodes"
  let ?missing = "filter (\<lambda>j. reports_missing (outcome (statObject w (new_Client (nodes ! j)) ?k)))
                    [0..<length nodes]"
  have nothrow: "\<forall>n\<in>set nodes. \<not> stat_throws (outcome (statObject w (new_Client n) ?k))"
    using False by (simp add: first_loop_throws_def)
  obtain effs1 where det: "detect_loop w ?clients nodes ?k 0 [] = (Inr ?missing, effs1)"
    using missing_found [OF assms nothrow]
    by (cases "detect_loop w ?clients nodes ?k 0 []") simp
  show ?thesis
  proof (cases "\<exists>n\<in>set nodes. reports_missing (outcome (statObject w (new_Client n) ?k))")
    case none: False
    then have "?missing = []" by (auto simp: filter_empty_conv)
    then have "fst (healFileIfNeeded e w fileId f) = Inr False"
      by (simp add: healFileIfNeeded_resolved [OF assms] det)
    then show ?thesis using False none by (simp add: heal_attempted_def)
  next
    case some: True
    then have ne: "?missing \<noteq> []" by (rule some_missing)
    show ?thesis
    proof (cases "\<exists>n\<in>set nodes. \<not> isl (outcome (statObject w (new_Client n) ?k))")
      case True
      then obtain m where m: "m < length nodes"
          "\<not> isl (outcome (statObject w (new_Client (nodes ! m)) ?k))"
        by (auto simp: in_set_conv_nth)
      then have "\<not> reports_missing (outcome (statObject w (new_Client (nodes ! m)) ?k))"
        by (cases "outcome (statObject w (new_Client (nodes ! m)) ?k)")
           (simp_all add: reports_missing_def)
      then have "m \<notin> set ?missing" by simp
      with m have "\<exists>c. fst (source_loop w ?clients ?k ?missing 0) = Some c"
        by (intro source_loop_some [of 0 m]) simp_all
      then obtain c effs2 where src: "source_loop w ?clients ?k ?missing 0 = (Some c, effs2)"
        by (cases "source_loop w ?clients ?k ?missing 0") auto
      have "fst (healFileIfNeeded e w fileId f) = Inr True"
        using ne by (simp add: healFileIfNeeded_resolved [OF assms] det src Let_def)
      then show ?thesis using False some True by (simp add: heal_attempted_def)
    next
      case nosrc: False
      then have "\<forall>j. 0 \<le> j \<and> j < length ?clients \<and> j \<notin> set ?missing
                   \<longrightarrow> isl (outcome (statObject w (?clients ! j) ?k))"
        by simp
      then have "fst (source_loop w ?clients ?k ?missing 0) = None" by (rule source_loop_none)
      then obtain effs2 where src: "source_loop w ?clients ?k ?missing 0 = (None, effs2)"
        by (cases "source_loop w ?clients ?k ?missing 0") simp
      have "fst (healFileIfNeeded e w fileId f) = Inr False"
        using ne by (simp add: healFileIfNeeded_resolved [OF assms] det src Let_def)
      then show ?thesis using False nosrc by (simp add: heal_attempted_def)
    qed
  qed
qed

text \<open>
  The counters of a cycle: the healed count is the number of files for which a heal was
  attempted, the error count the number of files on which \<open>healFileIfNeeded\<close> threw.
\<close>

lemma cycle_loop_counts:
  assumes "parseMinioNodes e = Inr nodes"
  shows "fst (cycle_loop e w files healed errors) =
           (healed + length (filter (\<lambda>f. \<not> first_loop_throws nodes w (fm_objectName f)
                                          \<and> heal_attempted nodes w (fm_objectName f)) files),
            errors + length (filter (\<lambda>f. first_loop_throws nodes w (fm_objectName f)) files))"
proof (induction files arbitrary: healed errors)
  case Nil
  show ?case by simp
next
  case (Cons f files)
  obtain r effs where run: "healFileIfNeeded e w (fm_id f) f = (r, effs)"
    by (cases "healFileIfNeeded e w (fm_id f) f")
  with healFileIfNeeded_result [OF assms, of w "fm_id f" f]
  have r: "r = (if first_loop_throws nodes w (fm_objectName f) then Inl includes_of_undefined
                else Inr (heal_attempted nodes w (fm_objectName f)))"
    by simp
  show ?case
  proof (cases "first_loop_throws nodes w (fm_objectName f)")
    case True
    then show ?thesis using run r Cons.IH [of healed "Suc errors"]
      by (simp add: case_prod_beta)
  next
    case False
    then show ?thesis
      using run r Cons.IH [of "Suc healed" errors] Cons.IH [of healed errors]
      by (simp add: case_prod_beta)
  qed
qed

lemma runHealingCycle_summary:
  "last (runHealingCycle e w (Inr files)) =
     ConsoleLog [Str (''Healing cycle completed - healed ''
                      @ show_nat (fst (fst (cycle_loop e w files 0 0))) @ '' files, ''
                      @ show_nat (snd (fst (cycle_loop e w files 0 0))) @ '' errors'')]"
  by (simp add: runHealingCycle_def case_prod_beta)

lemma stat_unchanged:
  "first_loop_throws nodes (w\<lparr>putObject := put, getObject := get\<rparr>) k = first_loop_throws nodes w k"
  "heal_attempted nodes (w\<lparr>putObject := put, getObject := get\<rparr>) k = heal_attempted nodes w k"
  by (simp_all add: first_loop_throws_def heal_attempted_def)

text \<open>
  Claim C10. On a resolved registry, and whatever the reads from the source and the
  writes to the targets do (so also when every copy fails): \<open>healFileIfNeeded\<close>, when
  its first loop does not throw, returns true exactly when a heal was attempted, that
  is, when some node reports the file missing and some node's stat succeeds; the healed
  count of a cycle is the number of files for which a heal was attempted, the error
  count the number of files on which \<open>healFileIfNeeded\<close> threw; and the last line the
  cycle prints is the summary with these two numbers.
\<close>

theorem healed_count_tallies_attempts:
  assumes "parseMinioNodes e = Inr nodes"
  shows "(\<not> first_loop_throws nodes w (fm_objectName f) \<longrightarrow>
            fst (healFileIfNeeded e (w\<lparr>putObject := put, getObject := get\<rparr>) (fm_id f) f)
              = Inr (heal_attempted nodes w (fm_objectName f)))
       \<and> fst (cycle_loop e (w\<lparr>putObject := put, getObject := get\<rparr>) files healed errors) =
           (healed + length (filter (\<lambda>f. \<not> first_loop_throws nodes w (fm_objectName f)
                                          \<and> heal_attempted nodes w (fm_objectName f)) files),
            errors + length (filter (\<lambda>f. first_loop_throws nodes w (fm_objectName f)) files))
       \<and> last (runHealingCycle e (w\<lparr>putObject := put, getObject := get\<rparr>) (Inr files)) =
           ConsoleLog
             [Str (''Healing cycle completed - healed ''
                   @ show_nat (length (filter (\<lambda>f. \<not> first_loop_throws nodes w (fm_objectName f)
                                                    \<and> heal_attempted nodes w (fm_objectName f))
                                         files))
                   @ '' files, ''
                   @ show_nat (length (filter (\<lambda>f. first_loop_throws nodes w (fm_objectName f))
                                         files))
                   @ '' errors'')]"
proof -
  define w' where "w' = w\<lparr>putObject := put, getObject := get\<rparr>"
  have same: "first_loop_throws nodes w' k = first_loop_throws nodes w k"
             "heal_attempted nodes w' k = heal_attempted nodes w k" for k
    by (simp_all add: w'_def stat_unchanged)
  have one: "\<not> first_loop_throws nodes w (fm_objectName f) \<longrightarrow>
            fst (healFileIfNeeded e w' (fm_id f) f) = Inr (heal_attempted nodes w (fm_objectName f))"
    using healFileIfNeeded_result [OF assms, of w' "fm_id f" f] by (simp add: same)
  have counts: "fst (cycle_loop e w' files h c) =
           (h + length (filter (\<lambda>f. \<not> first_loop_throws nodes w (fm_objectName f)
                                          \<and> heal_attempted nodes w (fm_objectName f)) files),
            c + length (filter (\<lambda>f. first_loop_throws nodes w (fm_objectName f)) files))" for h c
    using cycle_loop_counts [OF assms, of w' files h c] by (simp add: same)
  have summary: "last (runHealingCycle e w' (Inr files)) =
           ConsoleLog
             [Str (''Healing cycle completed - healed ''
                   @ show_nat (length (filter (\<lambda>f. \<not> first_loop_throws nodes w (fm_objectName f)
                                                    \<and> heal_attempted nodes w (fm_objectName f))
                                         files))
                   @ '' files, ''
                   @ show_nat (length (filter (\<lambda>f. first_loop_throws nodes w (fm_objectName f))
                                         files))
                   @ '' errors'')]"
    by (simp add: runHealingCycle_summary counts)
  from one counts [of healed errors] summary show ?thesis unfolding w'_def by blast
qed

text \<open>
  Claim C8, as the code has it. Take a file that no node holds: every node's stat fails,
  at least one of them as a missing file. When no failed stat makes the first loop
  throw (each has the code \<open>NoSuchKey\<close> or some message), \<open>healFileIfNeeded\<close> prints the
  error line "No source node found" last and returns false, and the cycle goes on with
  the remaining files with both counters unchanged: the file is counted neither as
  healed nor as an error. When some failed stat has another code and no message, the
  first loop throws, \<open>healFileIfNeeded\<close> throws with it, and the cycle prints "Error
  healing file", adds one to the error count and goes on with the remaining files.
\<close>

theorem unheld_object_logged_or_thrown:
  assumes "parseMinioNodes e = Inr nodes"
    and "\<forall>n\<in>set nodes. isl (outcome (statObject w (new_Client n) (fm_objectName f)))"
    and "\<exists>n\<in>set nodes. reports_missing (outcome (statObject w (new_Client n) (fm_objectName f)))"
  shows "(\<not> first_loop_throws nodes w (fm_objectName f) \<longrightarrow>
           (\<exists>effs.
              healFileIfNeeded e w (fm_id f) f =
                (Inr False,
                 effs @ [ConsoleError [Str (''No source node found for file '' @ fm_id f)]])
            \<and> cycle_loop e w (f # rest) healed errors =
                (fst (cycle_loop e w rest healed errors),
                 effs @ [ConsoleError [Str (''No source node found for file '' @ fm_id f)]]
                 @ snd (cycle_loop e w rest healed errors))))
       \<and> (first_loop_throws nodes w (fm_objectName f) \<longrightarrow>
           (\<exists>effs.
              healFileIfNeeded e w (fm_id f) f = (Inl includes_of_undefined, effs)
            \<and> cycle_loop e w (f # rest) healed errors =
                (fst (cycle_loop e w rest healed (Suc errors)),
                 effs @ [ConsoleError [Str (''Error healing file '' @ fm_id f @ '':''),
                                       opt_arg (message includes_of_undefined)]]
                 @ snd (cycle_loop e w rest healed (Suc errors)))))"
proof (intro conjI impI)
  assume quiet: "\<not> first_loop_throws nodes w (fm_objectName f)"
  let ?k = "fm_objectName f"
  let ?clients = "map new_Client nodes"
  let ?missing = "filter (\<lambda>j. reports_missing (outcome (statObject w (new_Client (nodes ! j)) ?k)))
                    [0..<length nodes]"
  let ?line = "ConsoleError [Str (''No source node found for file '' @ fm_id f)]"
  have nothrow: "\<forall>n\<in>set nodes. \<not> stat_throws (outcome (statObject w (new_Client n) ?k))"
    using quiet by (simp add: first_loop_throws_def)
  have ne: "?missing \<noteq> []" using assms(3) by (rule some_missing)
  obtain effs1 where det: "detect_loop w ?clients nodes ?k 0 [] = (Inr ?missing, effs1)"
    using missing_found [OF assms(1) nothrow]
    by (cases "detect_loop w ?clients nodes ?k 0 []") simp
  have "\<forall>j. 0 \<le> j \<and> j < length ?clients \<and> j \<notin> set ?missing
             \<longrightarrow> isl (outcome (statObject w (?clients ! j) ?k))"
    using assms(2) by simp
  then have "fst (source_loop w ?clients ?k ?missing 0) = None" by (rule source_loop_none)
  then obtain effs2 where src: "source_loop w ?clients ?k ?missing 0 = (None, effs2)"
    by (cases "source_loop w ?clients ?k ?missing 0") simp
  define effs where "effs =
     effs1
     @ [ConsoleLog [Str (''File '' @ fm_id f @ '' ('' @ fm_filename f @ '') missing on ''
                         @ show_nat (length ?missing) @ '' nodes, healing...'')]]
     @ effs2"
  have heal: "healFileIfNeeded e w (fm_id f) f = (Inr False, effs @ [?line])"
    using ne by (simp add: healFileIfNeeded_resolved [OF assms(1)] det src effs_def Let_def)
  then have "cycle_loop e w (f # rest) healed errors =
             (fst (cycle_loop e w rest healed errors),
              effs @ [?line] @ snd (cycle_loop e w rest healed errors))"
    by (simp add: case_prod_beta)
  with heal show "\<exists>effs.
              healFileIfNeeded e w (fm_id f) f = (Inr False, effs @ [?line])
            \<and> cycle_loop e w (f # rest) healed errors =
                (fst (cycle_loop e w rest healed errors),
                 effs @ [?line] @ snd (cycle_loop e w rest healed errors))"
    by blast
next
  assume "first_loop_throws nodes w (fm_objectName f)"
  then have "fst (healFileIfNeeded e w (fm_id f) f) = Inl includes_of_undefined"
    by (simp add: healFileIfNeeded_result [OF assms(1)])
  then obtain effs where heal: "healFileIfNeeded e w (fm_id f) f = (Inl includes_of_undefined, effs)"
    by (cases "healFileIfNeeded e w (fm_id f) f") simp
  then have "cycle_loop e w (f # rest) healed errors =
                (fst (cycle_loop e w rest healed (Suc errors)),
                 effs @ [ConsoleError [Str (''Error healing file '' @ fm_id f @ '':''),
                                       opt_arg (message includes_of_undefined)]]
                 @ snd (cycle_loop e w rest healed (Suc errors)))"
    by (simp add: case_prod_beta)
  with heal show "\<exists>effs.
              healFileIfNeeded e w (fm_id f) f = (Inl includes_of_undefined, effs)
            \<and> cycle_loop e w (f # rest) healed errors =
                (fst (cycle_loop e w rest healed (Suc errors)),
                 effs @ [ConsoleError [Str (''Error healing file '' @ fm_id f @ '':''),
                                       opt_arg (message includes_of_undefined)]]
                 @ snd (cycle_loop e w rest healed (Suc errors)))"
    by blast
qed

lemma report_txt_fields:
  "fm_id report_txt = ''f1''" "fm_filename report_txt = ''report.txt''"
  "fm_objectName report_txt = ''u1/f1.txt''" "fm_mimetype report_txt = Some ''text/plain''"
  by (simp_all add: report_txt_def)

lemma default_clients:
  "getMinioClients default_env
     = Inr [Client ''localhost'' 9001, Client ''localhost'' 9003, Client ''localhost'' 9005]"
  by (simp add: getMinioClients_def parseMinioNodes_default default_nodes_def new_Client_def)

lemma heal_nowhere:
  "healFileIfNeeded default_env nowhere ''f1'' report_txt =
     (Inr False,
      [StatObject (Client ''localhost'' 9001) ''u1/f1.txt'',
       StatObject (Client ''localhost'' 9003) ''u1/f1.txt'',
       StatObject (Client ''localhost'' 9005) ''u1/f1.txt'',
       ConsoleLog [Str ''File f1 (report.txt) missing on 3 nodes, healing...''],
       ConsoleError [Str ''No source node found for file f1'']])"
  by (simp add: healFileIfNeeded_def default_clients getMinioNodeConfigs_def
        parseMinioNodes_default default_nodes_def report_txt_fields nowhere_def no_such_key_def
        detect_loop.simps source_loop.simps show_nat.simps Let_def)

lemma heal_copies_fail:
  "healFileIfNeeded default_env copies_fail ''f1'' report_txt =
     (Inr True,
      [StatObject (Client ''localhost'' 9001) ''u1/f1.txt'',
       StatObject (Client ''localhost'' 9003) ''u1/f1.txt'',
       StatObject (Client ''localhost'' 9005) ''u1/f1.txt'',
       ConsoleLog [Str ''File f1 (report.txt) missing on 2 nodes, healing...''],
       StatObject (Client ''localhost'' 9003) ''u1/f1.txt'',
       GetObject (Client ''localhost'' 9003) ''u1/f1.txt'',
       PutObject (Client ''localhost'' 9001) ''u1/f1.txt'',
       ConsoleError [Str ''Failed to heal file f1 to node localhost:9001:'', Str ''disk full''],
       GetObject (Client ''localhost'' 9003) ''u1/f1.txt'',
       PutObject (Client ''localhost'' 9005) ''u1/f1.txt'',
       ConsoleError [Str ''Failed to heal file f1 to node localhost:9005:'', Str ''disk full'']])"
  by (simp add: healFileIfNeeded_def default_clients getMinioNodeConfigs_def
        parseMinioNodes_default default_nodes_def report_txt_fields copies_fail_def
        no_such_key_def detect_loop.simps source_loop.simps show_nat.simps Let_def
        copyFileToNode_def or_default_def node_text_def at_index_def show_opt_def show_int_def
        opt_arg_def new_Error_def)

lemma notes_txt_fields:
  "fm_id notes_txt = ''f2''" "fm_filename notes_txt = ''notes.txt''"
  "fm_objectName notes_txt = ''u1/f2.txt''" "fm_mimetype notes_txt = Some ''text/plain''"
  by (simp_all add: notes_txt_def)

lemma copies_fail_report:
  "\<not> first_loop_throws default_nodes copies_fail ''u1/f1.txt''"
  "heal_attempted default_nodes copies_fail ''u1/f1.txt''"
  by (simp_all add: first_loop_throws_def heal_attempted_def default_nodes_def copies_fail_def
        new_Client_def stat_throws_def reports_missing_def no_such_key_def)

lemma copies_fail_notes:
  "\<not> first_loop_throws default_nodes copies_fail ''u1/f2.txt''"
  "\<not> heal_attempted default_nodes copies_fail ''u1/f2.txt''"
  by (simp_all add: first_loop_throws_def heal_attempted_def default_nodes_def copies_fail_def
        new_Client_def stat_throws_def reports_missing_def)

theorem healed_count_tallies_attempts_witness:
  "parseMinioNodes default_env = Inr default_nodes
   \<and> \<not> first_loop_throws default_nodes copies_fail ''u1/f1.txt''
   \<and> \<not> first_loop_throws default_nodes copies_fail ''u1/f2.txt''
   \<and> putObject copies_fail (Client ''localhost'' 9001) ''u1/f1.txt'' ''abc'' ''text/plain''
       = Inl (new_Error ''disk full'')
   \<and> putObject copies_fail (Client ''localhost'' 9005) ''u1/f1.txt'' ''abc'' ''text/plain''
       = Inl (new_Error ''disk full'')
   \<and> ConsoleError [Str ''Failed to heal file f1 to node localhost:9001:'', Str ''disk full'']
       \<in> set (snd (healFileIfNeeded default_env copies_fail ''f1'' report_txt))
   \<and> ConsoleError [Str ''Failed to heal file f1 to node localhost:9005:'', Str ''disk full'']
       \<in> set (snd (healFileIfNeeded default_env copies_fail ''f1'' report_txt))
   \<and> fst (healFileIfNeeded default_env copies_fail ''f1'' report_txt) = Inr True
   \<and> fst (healFileIfNeeded default_env copies_fail ''f2'' notes_txt) = Inr False
   \<and> fst (cycle_loop default_env copies_fail [report_txt, notes_txt] 0 0) = (1, 0)
   \<and> last (runHealingCycle default_env copies_fail (Inr [report_txt, notes_txt]))
       = ConsoleLog [Str ''Healing cycle completed - healed 1 files, 0 errors'']"
proof -
  have h: "parseMinioNodes default_env = Inr default_nodes" by (rule parseMinioNodes_default)
  have same: "copies_fail\<lparr>putObject := putObject copies_fail, getObject := getObject copies_fail\<rparr>
                = copies_fail"
    by simp
  note inst = healed_count_tallies_attempts
                [OF h, where w = copies_fail and put = "putObject copies_fail"
                   and get = "getObject copies_fail", unfolded same]
  from inst [where f = report_txt]
  have one: "fst (healFileIfNeeded default_env copies_fail ''f1'' report_txt) = Inr True"
    by (simp add: report_txt_fields copies_fail_report)
  from inst [where f = notes_txt]
  have two: "fst (healFileIfNeeded default_env copies_fail ''f2'' notes_txt) = Inr False"
    by (simp add: notes_txt_fields copies_fail_notes)
  from inst [where files = "[report_txt, notes_txt]" and healed = 0 and errors = 0]
  have counts: "fst (cycle_loop default_env copies_fail [report_txt, notes_txt] 0 0) = (1, 0)"
    and summary: "last (runHealingCycle default_env copies_fail (Inr [report_txt, notes_txt]))
       = ConsoleLog [Str ''Healing cycle completed - healed 1 files, 0 errors'']"
    by (simp_all add: report_txt_fields notes_txt_fields copies_fail_report copies_fail_notes
          show_nat.simps)
  have puts: "putObject copies_fail (Client ''localhost'' 9001) ''u1/f1.txt'' ''abc'' ''text/plain''
       = Inl (new_Error ''disk full'')"
    "putObject copies_fail (Client ''localhost'' 9005) ''u1/f1.txt'' ''abc'' ''text/plain''
       = Inl (new_Error ''disk full'')"
    by (simp_all add: copies_fail_def)
  show ?thesis
    using h one two counts summary puts copies_fail_report(1) copies_fail_notes(1)
    by (simp add: heal_copies_fail)
qed

lemma denied_throws:
  "first_loop_throws default_nodes denied_no_message ''u1/f1.txt''"
  by (simp add: first_loop_throws_def default_nodes_def denied_no_message_def new_Client_def
        stat_throws_def)

lemma nowhere_quiet:
  "\<not> first_loop_throws default_nodes nowhere ''u1/f1.txt''"
  by (simp add: first_loop_throws_def default_nodes_def nowhere_def stat_throws_def
        no_such_key_def)

theorem unheld_object_logged_or_thrown_witness:
  "parseMinioNodes default_env = Inr default_nodes
   \<and> outcome (statObject nowhere (Client ''localhost'' 9001) ''u1/f1.txt'') = Inl no_such_key
   \<and> outcome (statObject nowhere (Client ''localhost'' 9003) ''u1/f1.txt'') = Inl no_such_key
   \<and> outcome (statObject nowhere (Client ''localhost'' 9005) ''u1/f1.txt'') = Inl no_such_key
   \<and> fst (healFileIfNeeded default_env nowhere ''f1'' report_txt) = Inr False
   \<and> last (snd (healFileIfNeeded default_env nowhere ''f1'' report_txt))
       = ConsoleError [Str ''No source node found for file f1'']
   \<and> fst (cycle_loop default_env nowhere [report_txt, report_txt] 4 2) = (4, 2)
   \<and> outcome (statObject denied_no_message (Client ''localhost'' 9001) ''u1/f1.txt'')
       = Inl no_such_key
   \<and> outcome (statObject denied_no_message (Client ''localhost'' 9003) ''u1/f1.txt'')
       = Inl \<lparr>code = Some ''AccessDenied'', message = None\<rparr>
   \<and> outcome (statObject denied_no_message (Client ''localhost'' 9005) ''u1/f1.txt'')
       = Inl no_such_key
   \<and> fst (healFileIfNeeded default_env denied_no_message ''f1'' report_txt)
       = Inl includes_of_undefined
   \<and> fst (cycle_loop default_env denied_no_message [report_txt] 0 0) = (0, 1)"
proof -
  have h1: "parseMinioNodes default_env = Inr default_nodes" by (rule parseMinioNodes_default)
  have h2: "\<forall>n\<in>set default_nodes.
              isl (outcome (statObject nowhere (new_Client n) (fm_objectName report_txt)))"
    by (simp add: nowhere_def)
  have h3: "\<exists>n\<in>set default_nodes.
              reports_missing (outcome (statObject nowhere (new_Client n) (fm_objectName report_txt)))"
    by (auto simp: default_nodes_def nowhere_def reports_missing_def no_such_key_def)
  note inst = unheld_object_logged_or_thrown [OF h1 h2 h3]
  from inst [where rest = "[]" and healed = 4 and errors = 2] obtain effs where
    one: "healFileIfNeeded default_env nowhere (fm_id report_txt) report_txt =
            (Inr False,
             effs @ [ConsoleError [Str (''No source node found for file '' @ fm_id report_txt)]])"
    using nowhere_quiet by (auto simp: report_txt_fields)
  from inst [where rest = "[report_txt]" and healed = 4 and errors = 2]
  have "fst (cycle_loop default_env nowhere [report_txt, report_txt] 4 2)
          = fst (cycle_loop default_env nowhere [report_txt] 4 2)"
    using nowhere_quiet by (auto simp: report_txt_fields)
  also from inst [where rest = "[]" and healed = 4 and errors = 2]
  have "fst (cycle_loop default_env nowhere [report_txt] 4 2)
          = fst (cycle_loop default_env nowhere [] 4 2)"
    using nowhere_quiet by (auto simp: report_txt_fields)
  finally have counts: "fst (cycle_loop default_env nowhere [report_txt, report_txt] 4 2) = (4, 2)"
    by simp
  have stats: "outcome (statObject nowhere (Client ''localhost'' 9001) ''u1/f1.txt'') = Inl no_such_key"
    "outcome (statObject nowhere (Client ''localhost'' 9003) ''u1/f1.txt'') = Inl no_such_key"
    "outcome (statObject nowhere (Client ''localhost'' 9005) ''u1/f1.txt'') = Inl no_such_key"
    by (simp_all add: nowhere_def)
  from one have quiet: "fst (healFileIfNeeded default_env nowhere ''f1'' report_txt) = Inr False"
    "last (snd (healFileIfNeeded default_env nowhere ''f1'' report_txt))
       = ConsoleError [Str ''No source node found for file f1'']"
    by (simp_all add: report_txt_fields)
  have d2: "\<forall>n\<in>set default_nodes.
              isl (outcome (statObject denied_no_message (new_Client n) (fm_objectName report_txt)))"
    by (simp add: denied_no_message_def)
  have d3: "\<exists>n\<in>set default_nodes.
              reports_missing
                (outcome (statObject denied_no_message (new_Client n) (fm_objectName report_txt)))"
    by (auto simp: default_nodes_def denied_no_message_def reports_missing_def no_such_key_def
          new_Client_def)
  from unheld_object_logged_or_thrown
         [OF h1 d2 d3, where rest = "[]" and healed = 0 and errors = 0]
  obtain effs' where
    thrown: "healFileIfNeeded default_env denied_no_message (fm_id report_txt) report_txt
               = (Inl includes_of_undefined, effs')"
    and counted: "fst (cycle_loop default_env denied_no_message [report_txt] 0 0)
               = fst (cycle_loop default_env denied_no_message [] 0 (Suc 0))"
    using denied_throws by (auto simp: report_txt_fields)
  have dstats:
    "outcome (statObject denied_no_message (Client ''localhost'' 9001) ''u1/f1.txt'')
       = Inl no_such_key"
    "outcome (statObject denied_no_message (Client ''localhost'' 9003) ''u1/f1.txt'')
       = Inl \<lparr>code = Some ''AccessDenied'', message = None\<rparr>"
    "outcome (statObject denied_no_message (Client ''localhost'' 9005) ''u1/f1.txt'')
       = Inl no_such_key"
    by (simp_all add: denied_no_message_def)
  from thrown have t1: "fst (healFileIfNeeded default_env denied_no_message ''f1'' report_txt)
       = Inl includes_of_undefined"
    by (simp add: report_txt_fields)
  from counted have t2: "fst (cycle_loop default_env denied_no_message [report_txt] 0 0) = (0, 1)"
    by simp
  show ?thesis
    by (simp only: h1 stats quiet counts dstats t1 t2)
qed

text \<open>
  Claim C8 as stated fails: with a file that every node reports as missing, the cycle
  ends with both counters at zero, and its summary line says so.
\<close>

theorem unheld_object_missing_from_error_count:
  "outcome (statObject nowhere (Client ''localhost'' 9001) ''u1/f1.txt'') = Inl no_such_key
   \<and> outcome (statObject nowhere (Client ''localhost'' 9003) ''u1/f1.txt'') = Inl no_such_key
   \<and> outcome (statObject nowhere (Client ''localhost'' 9005) ''u1/f1.txt'') = Inl no_such_key
   \<and> fst (cycle_loop default_env nowhere [report_txt] 0 0) = (0, 0)
   \<and> runHealingCycle default_env nowhere (Inr [report_txt]) =
       [ConsoleLog [Str ''Starting healing cycle...''],
        ConsoleLog [Str ''Found 1 files to check''],
        StatObject (Client ''localhost'' 9001) ''u1/f1.txt'',
        StatObject (Client ''localhost'' 9003) ''u1/f1.txt'',
        StatObject (Client ''localhost'' 9005) ''u1/f1.txt'',
        ConsoleLog [Str ''File f1 (report.txt) missing on 3 nodes, healing...''],
        ConsoleError [Str ''No source node found for file f1''],
        ConsoleLog [Str ''Healing cycle completed - healed 0 files, 0 errors'']]"
proof -
  have stats: "outcome (statObject nowhere (Client ''localhost'' 9001) ''u1/f1.txt'') = Inl no_such_key"
    "outcome (statObject nowhere (Client ''localhost'' 9003) ''u1/f1.txt'') = Inl no_such_key"
    "outcome (statObject nowhere (Client ''localhost'' 9005) ''u1/f1.txt'') = Inl no_such_key"
    by (simp_all add: nowhere_def)
  have loop: "cycle_loop default_env nowhere [report_txt] 0 0 =
                ((0, 0), snd (healFileIfNeeded default_env nowhere ''f1'' report_txt))"
    by (simp add: report_txt_fields heal_nowhere)
  have "runHealingCycle default_env nowhere (Inr [report_txt]) =
       [ConsoleLog [Str ''Starting healing cycle...''],
        ConsoleLog [Str ''Found 1 files to check'']]
       @ snd (healFileIfNeeded default_env nowhere ''f1'' report_txt)
       @ [ConsoleLog [Str ''Healing cycle completed - healed 0 files, 0 errors'']]"
    by (simp add: runHealingCycle_def loop show_nat.simps del: cycle_loop.simps)
  with stats loop show ?thesis by (simp add: heal_nowhere)
qed

section \<open>Properties of the replicated write path\<close>

declare upload_loop.simps [simp del]

lemma connection_refused_is_connection_error:
  "is_connection_error (new_Error ''connect ECONNREFUSED 127.0.0.1:9001'')"
  by (simp add: is_connection_error_def new_Error_def)

lemma uploadFileFromBuffer_primary_accepts:
  assumes "putObject w primary k buf (or_default ct ''application/octet-stream'') = Inr u"
  shows "uploadFileFromBuffer e w (Some primary) buf k ct = (Inr (), [PutObject primary k])"
  using assms by (simp add: uploadFileFromBuffer_def getMinioClient_def)

lemma uploadFileFromBuffer_other_error_propagates:
  assumes "putObject w primary k buf (or_default ct ''application/octet-stream'') = Inl err"
    and "\<not> is_connection_error err"
  shows "uploadFileFromBuffer e w (Some primary) buf k ct = (Inl err, [PutObject primary k])"
  using assms by (simp add: uploadFileFromBuffer_def getMinioClient_def)

lemma upload_loop_first_accepts:
  assumes "i \<le> m" "m < length clients" "putObject w (clients ! m) k buf t = Inr u"
    "\<forall>j. i \<le> j \<and> j < m \<longrightarrow> isl (putObject w (clients ! j) k buf t)"
  shows "upload_loop w clients nodes k buf t i lastError =
           (Inr (),
            map (\<lambda>c. PutObject c k) (take (Suc m - i) (drop i clients))
            @ [ConsoleLog [Str (''Upload succeeded via failover node: ''
                                @ show_opt (\<lambda>s. s) (map_option endpoint (at_index nodes m))
                                @ '':''
                                @ show_opt show_int (map_option port (at_index nodes m)))]])"
  using assms
proof (induction w clients nodes k buf t i lastError rule: upload_loop.induct)
  case (1 w clients nodes k buf t i lastError)
  have il: "i < length clients" using "1.prems" by simp
  have dr: "drop i clients = clients ! i # drop (Suc i) clients"
    using il by (simp add: Cons_nth_drop_Suc)
  show ?case
  proof (cases "i = m")
    case True
    then show ?thesis using "1.prems" il dr
      by (subst upload_loop.simps) simp
  next
    case False
    then have lt: "i < m" using "1.prems" by simp
    then have "isl (putObject w (clients ! i) k buf t)" using "1.prems" by simp
    then obtain err where err: "putObject w (clients ! i) k buf t = Inl err"
      by (cases "putObject w (clients ! i) k buf t") auto
    have step: "Suc m - i = Suc (Suc m - Suc i)" using lt by simp
    from "1.IH" [OF il err] lt "1.prems"
    have "upload_loop w clients nodes k buf t (Suc i) err =
           (Inr (),
            map (\<lambda>c. PutObject c k) (take (Suc m - Suc i) (drop (Suc i) clients))
            @ [ConsoleLog [Str (''Upload succeeded via failover node: ''
                                @ show_opt (\<lambda>s. s) (map_option endpoint (at_index nodes m))
                                @ '':''
                                @ show_opt show_int (map_option port (at_index nodes m)))]])"
      by simp
    then show ?thesis using err il dr step
      by (subst upload_loop.simps) simp
  qed
qed

lemma upload_loop_all_refuse:
  assumes "\<forall>j. i \<le> j \<and> j < length clients \<longrightarrow> isl (putObject w (clients ! j) k buf t)"
  shows "upload_loop w clients nodes k buf t i lastError =
           (Inl (new_Error (''Upload failed on all MinIO nodes. Last error: ''
                            @ show_opt (\<lambda>s. s)
                                (message (if i < length clients
                                          then projl (putObject w (last clients) k buf t)
                                          else lastError)))),
            map (\<lambda>c. PutObject c k) (drop i clients))"
  using assms
proof (induction w clients nodes k buf t i lastError rule: upload_loop.induct)
  case (1 w clients nodes k buf t i lastError)
  show ?case
  proof (cases "i < length clients")
    case False
    then show ?thesis by (subst upload_loop.simps) simp
  next
    case True
    then have "isl (putObject w (clients ! i) k buf t)" using "1.prems" by simp
    then obtain err where err: "putObject w (clients ! i) k buf t = Inl err"
      by (cases "putObject w (clients ! i) k buf t") auto
    have rest: "\<forall>j. Suc i \<le> j \<and> j < length clients
                  \<longrightarrow> isl (putObject w (clients ! j) k buf t)"
      using "1.prems" by simp
    note IH = "1.IH" [OF True err rest]
    have dr: "drop i clients = clients ! i # drop (Suc i) clients"
      using True by (simp add: Cons_nth_drop_Suc)
    show ?thesis
    proof (cases "Suc i < length clients")
      case True
      then show ?thesis using IH err dr \<open>i < length clients\<close>
        by (subst upload_loop.simps) simp
    next
      case False
      then have "length clients = Suc i" using \<open>i < length clients\<close> by simp
      moreover have "clients \<noteq> []" using \<open>i < length clients\<close> by auto
      ultimately have "clients ! i = last clients" by (simp add: last_conv_nth)
      then show ?thesis using IH err dr \<open>i < length clients\<close> False
        by (subst upload_loop.simps) simp
    qed
  qed
qed

text \<open>
  After a connection error on the primary, the fallback loop starts at the first node of
  the registry, whichever node the primary client is connected to.
\<close>

lemma uploadFileFromBuffer_fallback_starts_at_first_node:
  assumes "parseMinioNodes e = Inr (n # nodes)"
    and "putObject w primary k buf (or_default ct ''application/octet-stream'') = Inl err"
    and "is_connection_error err"
  shows "\<exists>effs. snd (uploadFileFromBuffer e w (Some primary) buf k ct)
                  = PutObject primary k # PutObject (new_Client n) k # effs"
  using assms
  by (simp add: uploadFileFromBuffer_def getMinioClient_def getMinioClients_def
        getMinioNodeConfigs_def Let_def case_prod_beta
        upload_loop.simps [of _ "new_Client n # _" _ _ _ _ 0]
      split: sum.splits)

text \<open>
  Claim C1 at a concrete input: three local nodes, the primary client connected to the
  first of them, which now refuses connections while the other two accept. The upload
  succeeds, but after the failed primary attempt the fallback loop sends a second
  request to the primary's own node before the one the second node accepts.
\<close>

theorem uploadFileFromBuffer_retries_primary_node:
  "parseMinioNodes default_env = Inr default_nodes
   \<and> new_Client (default_nodes ! 0) = Client ''localhost'' 9001
   \<and> uploadFileFromBuffer default_env first_down (Some (Client ''localhost'' 9001))
         ''data'' ''k'' None =
       (Inr (),
        [PutObject (Client ''localhost'' 9001) ''k'',
         PutObject (Client ''localhost'' 9001) ''k'',
         PutObject (Client ''localhost'' 9003) ''k'',
         ConsoleLog [Str ''Upload succeeded via failover node: localhost:9003'']])"
proof -
  have "uploadFileFromBuffer default_env first_down (Some (Client ''localhost'' 9001))
         ''data'' ''k'' None =
       (Inr (),
        [PutObject (Client ''localhost'' 9001) ''k'',
         PutObject (Client ''localhost'' 9001) ''k'',
         PutObject (Client ''localhost'' 9003) ''k'',
         ConsoleLog [Str ''Upload succeeded via failover node: localhost:9003'']])"
    by (simp add: uploadFileFromBuffer_def getMinioClient_def getMinioClients_def
          getMinioNodeConfigs_def parseMinioNodes_default default_nodes_def new_Client_def
          first_down_def or_default_def connection_refused_is_connection_error
          upload_loop.simps at_index_def show_opt_def show_int_def show_nat.simps Let_def)
  then show ?thesis
    by (simp add: parseMinioNodes_default) (simp add: default_nodes_def new_Client_def)
qed

end
